theory Spec2Isabelle
  imports Main "HOL-Library.Multiset"
begin

section \<open>PhotoPicks: the catalog, the filter and the selection (frontend App)\<close>

text \<open>
  A photo as the server sends it and as the frontend keeps it in \<^verbatim>\<open>allPhotos\<close>:
  \<^verbatim>\<open>{ name, path, size, rating, label }\<close>. The rating is a JavaScript number (an
  integer here), the label is a string or \<^verbatim>\<open>null\<close> (\<open>None\<close>). The size is the text
  the metadata tool prints; nothing computes with it.
\<close>

record photo =
  name :: string
  path :: string
  size_p :: string
  rating :: int
  label :: "string option"

text \<open>
  The part of the state of \<^verbatim>\<open>App\<close> that the filter, the selection and the metadata
  updates read and write (the \<^verbatim>\<open>useState\<close> cells of the component).
\<close>

record app_state =
  allPhotos :: "photo list"
  photos :: "photo list"
  selectedIndex :: int
  filterRating :: int
  filterColor :: string
  columnsCount :: int

text \<open>\<^verbatim>\<open>p.rating || 0\<close>: a falsy number (0) is replaced by 0.\<close>

definition rating_or_0 :: "int \<Rightarrow> int" where
  "rating_or_0 r = (if r = 0 then 0 else r)"

text \<open>
  The body of the filter effect up to \<^verbatim>\<open>setPhotos(result)\<close>:
  \<^verbatim>\<open>
    let result = allPhotos;
    if (filterRating > 0) result = result.filter(p => (p.rating || 0) >= filterRating);
    if (filterColor !== 'All') result = result.filter(p => p.label === filterColor);
  \<close>
\<close>

definition filterPhotos :: "int \<Rightarrow> string \<Rightarrow> photo list \<Rightarrow> photo list" where
  "filterPhotos fRating fColor all =
     (let result = all;
          result = (if fRating > 0
                    then filter (\<lambda>p. rating_or_0 (rating p) \<ge> fRating) result
                    else result);
          result = (if fColor \<noteq> ''All''
                    then filter (\<lambda>p. label p = Some fColor) result
                    else result)
      in result)"

text \<open>
  The updater given to \<^verbatim>\<open>setSelectedIndex\<close> by the filter effect:
  \<^verbatim>\<open>prev => Math.min(prev, Math.max(0, result.length - 1))\<close>.
\<close>

definition clampIndex :: "int \<Rightarrow> nat \<Rightarrow> int" where
  "clampIndex prev n = min prev (max 0 (int n - 1))"

text \<open>The whole filter effect: it sets \<^verbatim>\<open>photos\<close> and \<^verbatim>\<open>selectedIndex\<close> only.\<close>

definition filterEffect :: "app_state \<Rightarrow> app_state" where
  "filterEffect st =
     (let result = filterPhotos (filterRating st) (filterColor st) (allPhotos st)
      in st\<lparr>photos := result,
            selectedIndex := clampIndex (selectedIndex st) (length result)\<rparr>)"

text \<open>
  \<^verbatim>\<open>photos[selectedIndex]\<close>: reading a JavaScript array outside its range gives
  \<^verbatim>\<open>undefined\<close> (\<open>None\<close>).
\<close>

definition js_index :: "'a list \<Rightarrow> int \<Rightarrow> 'a option" where
  "js_index xs i = (if 0 \<le> i \<and> i < int (length xs) then Some (xs ! nat i) else None)"

definition currentPhoto :: "app_state \<Rightarrow> photo option" where
  "currentPhoto st = js_index (photos st) (selectedIndex st)"

text \<open>
  The predicate of the specification, in its words: a record is included when its rating
  is at least the minimum rating and the criteria label is the wildcard or equals the
  record's label. The wildcard of the code is the string \<^verbatim>\<open>'All'\<close>.
\<close>

definition spec_included :: "int \<Rightarrow> string \<Rightarrow> photo \<Rightarrow> bool" where
  "spec_included minRating critLabel p \<longleftrightarrow>
     rating p \<ge> minRating \<and> (critLabel = ''All'' \<or> label p = Some critLabel)"

text \<open>Ascending order of the names under a comparison \<open>le\<close> of names.\<close>

definition name_ascending :: "(string \<Rightarrow> string \<Rightarrow> bool) \<Rightarrow> photo list \<Rightarrow> bool" where
  "name_ascending le ps = sorted_wrt (\<lambda>a b. le (name a) (name b)) ps"


subsection \<open>Optimistic metadata update and auto-advance\<close>

text \<open>
  \<^verbatim>\<open>updateList\<close> of \<^verbatim>\<open>updateMetadata\<close>, for the path of the current photo. An argument
  that is \<^verbatim>\<open>undefined\<close> is \<open>None\<close>; the label argument may also be \<^verbatim>\<open>null\<close>
  (\<open>Some None\<close>).
  \<^verbatim>\<open>
    list.map(p => {
      if (p.path === currentPhoto.path) {
        return { ...p, ...(rating !== undefined && { rating }),
                       ...(label !== undefined && { label }) };
      }
      return p;
    })
  \<close>
\<close>

definition updateList ::
  "string \<Rightarrow> int option \<Rightarrow> string option option \<Rightarrow> photo list \<Rightarrow> photo list" where
  "updateList cpath r l list =
     map (\<lambda>p. if path p = cpath
              then p\<lparr>rating := (case r of None \<Rightarrow> rating p | Some v \<Rightarrow> v),
                     label := (case l of None \<Rightarrow> label p | Some v \<Rightarrow> v)\<rparr>
              else p) list"

text \<open>
  The callback of the 100 ms timer,
  \<^verbatim>\<open>setSelectedIndex(prev => Math.min(prev + 1, photos.length - 1))\<close>, where
  \<^verbatim>\<open>photos\<close> is the list the closure of \<^verbatim>\<open>updateMetadata\<close> captured (length \<open>n\<close>)
  and \<^verbatim>\<open>prev\<close> is the index when the timer fires.
\<close>

definition autoAdvance :: "nat \<Rightarrow> app_state \<Rightarrow> app_state" where
  "autoAdvance n st = st\<lparr>selectedIndex := min (selectedIndex st + 1) (int n - 1)\<rparr>"

text \<open>
  How the \<^verbatim>\<open>POST /metadata\<close> request ended, seen from the frontend: \<^verbatim>\<open>fetch\<close>
  rejects (the server cannot be reached), or it resolves with a response, which
  \<^verbatim>\<open>updateMetadata\<close> never inspects (a 500 of the server resolves too).
\<close>

datatype write_outcome = WriteOk | WriteHttp500 | WriteRejected

text \<open>
  \<^verbatim>\<open>updateMetadata(rating, label)\<close>, run to its end on the state and the list of
  \<^verbatim>\<open>console.error\<close> lines: it returns at once when there is no current photo;
  otherwise it replaces \<^verbatim>\<open>allPhotos\<close>, which makes the filter effect run, then the
  timer fires, and the request ends with \<open>outcome\<close>.
\<close>

definition updateMetadata ::
  "int option \<Rightarrow> string option option \<Rightarrow> write_outcome \<Rightarrow>
   app_state \<times> string list \<Rightarrow> app_state \<times> string list" where
  "updateMetadata r l outcome stl =
     (case stl of (st, log) \<Rightarrow>
        (case currentPhoto st of
           None \<Rightarrow> (st, log)
         | Some cp \<Rightarrow>
             (let st1 = st\<lparr>allPhotos := updateList (path cp) r l (allPhotos st)\<rparr>;
                  st2 = filterEffect st1;
                  st3 = autoAdvance (length (photos st)) st2;
                  log' = (case outcome of
                            WriteRejected \<Rightarrow> log @ [''Failed to save metadata'']
                          | _ \<Rightarrow> log)
              in (st3, log'))))"

text \<open>The body of the request \<^verbatim>\<open>updateMetadata\<close> posts: \<^verbatim>\<open>{ file, rating, label }\<close>.\<close>

record meta_request =
  req_file :: "string option"
  req_rating :: "int option"
  req_label :: "string option option"

definition updateMetadataRequest ::
  "int option \<Rightarrow> string option option \<Rightarrow> app_state \<Rightarrow> meta_request option" where
  "updateMetadataRequest r l st =
     (case currentPhoto st of
        None \<Rightarrow> None
      | Some cp \<Rightarrow> Some \<lparr>req_file = Some (path cp), req_rating = r, req_label = l\<rparr>)"

text \<open>
  The rating and label keys of \<^verbatim>\<open>handleKeyDown\<close>: the arguments each key gives to
  \<^verbatim>\<open>updateMetadata\<close> (\<^verbatim>\<open>case '1': updateMetadata(1, undefined)\<close> \<open>\<dots>\<close>
  \<^verbatim>\<open>case '0': updateMetadata(0, null)\<close> \<open>\<dots>\<close> \<^verbatim>\<open>case '9': updateMetadata(undefined, 'Blue')\<close>).
\<close>

definition keyMetadataArgs :: "string \<Rightarrow> (int option \<times> string option option) option" where
  "keyMetadataArgs key =
     (if key = ''1'' then Some (Some 1, None)
      else if key = ''2'' then Some (Some 2, None)
      else if key = ''3'' then Some (Some 3, None)
      else if key = ''4'' then Some (Some 4, None)
      else if key = ''5'' then Some (Some 5, None)
      else if key = ''0'' then Some (Some 0, Some None)
      else if key = ''6'' then Some (None, Some (Some ''Red''))
      else if key = ''7'' then Some (None, Some (Some ''Yellow''))
      else if key = ''8'' then Some (None, Some (Some ''Green''))
      else if key = ''9'' then Some (None, Some (Some ''Blue''))
      else None)"

text \<open>
  \<^verbatim>\<open>handleKeyDown\<close>: nothing happens while typing in an input or when no photo is
  visible; the arrows move the selection; the digit keys update the metadata.
\<close>

definition handleKeyDown ::
  "bool \<Rightarrow> string \<Rightarrow> write_outcome \<Rightarrow> app_state \<times> string list \<Rightarrow> app_state \<times> string list" where
  "handleKeyDown targetIsInput key outcome stl =
     (case stl of (st, log) \<Rightarrow>
        if targetIsInput then stl
        else if length (photos st) = 0 then stl
        else if key = ''ArrowRight'' then
          (st\<lparr>selectedIndex := min (selectedIndex st + 1) (int (length (photos st)) - 1)\<rparr>, log)
        else if key = ''ArrowLeft'' then
          (st\<lparr>selectedIndex := max (selectedIndex st - 1) 0\<rparr>, log)
        else if key = ''ArrowDown'' then
          (st\<lparr>selectedIndex :=
                min (selectedIndex st + columnsCount st) (int (length (photos st)) - 1)\<rparr>, log)
        else if key = ''ArrowUp'' then
          (st\<lparr>selectedIndex := max (selectedIndex st - columnsCount st) 0\<rparr>, log)
        else (case keyMetadataArgs key of
                Some (r, l) \<Rightarrow> updateMetadata r l outcome stl
              | None \<Rightarrow> stl))"

section \<open>The server\<close>

subsection \<open>Listing the photos of a directory\<close>

text \<open>One object of the JSON array the metadata tool prints for a directory.\<close>

record raw_item =
  FileName :: string
  SourceFile :: string
  FileSize :: string
  Rating :: "int option"
  Label :: "string option"

text \<open>
  What the callback of \<^verbatim>\<open>execFile\<close> receives: an error (with the tool's stderr) or
  the tool's stdout.
\<close>

datatype exec_result = ExecError string | ExecOk string

text \<open>
  The surroundings of the handler, which are not code of the server: its directory
  \<^verbatim>\<open>__dirname\<close>, \<^verbatim>\<open>path.resolve\<close>, the path of the tool's binary
  (\<^verbatim>\<open>require('exiftool-vendored.exe')\<close>, \<open>None\<close> when it throws), the run of the tool,
  \<^verbatim>\<open>JSON.parse\<close> of its output as an array of items (\<open>None\<close> when the \<^verbatim>\<open>try\<close> block
  around it throws), and \<^verbatim>\<open>String.prototype.localeCompare\<close>.
\<close>

record scan_env =
  dirname :: string
  path_resolve :: "string list \<Rightarrow> string"
  exiftool_binary :: "string option"
  execFile :: "string \<Rightarrow> string list \<Rightarrow> exec_result"
  json_parse :: "string \<Rightarrow> raw_item list option"
  localeCompare :: "string \<Rightarrow> string \<Rightarrow> int"

text \<open>\<^verbatim>\<open>const DEFAULT_ROOT = path.resolve(__dirname, '../..')\<close>\<close>

definition DEFAULT_ROOT :: "scan_env \<Rightarrow> string" where
  "DEFAULT_ROOT env = path_resolve env [dirname env, ''../..'']"

text \<open>
  \<^verbatim>\<open>getSafePath\<close>: \<^verbatim>\<open>if (!reqPath) return DEFAULT_ROOT; return path.resolve(reqPath);\<close>
  A query parameter that is absent is \<open>None\<close>; the empty string is falsy too.
\<close>

definition getSafePath :: "scan_env \<Rightarrow> string option \<Rightarrow> string" where
  "getSafePath env reqPath =
     (case reqPath of
        None \<Rightarrow> DEFAULT_ROOT env
      | Some s \<Rightarrow> if s = [] then DEFAULT_ROOT env else path_resolve env [s])"

text \<open>The arguments given to the tool.\<close>

definition exiftool_args :: "bool \<Rightarrow> string \<Rightarrow> string list" where
  "exiftool_args recursive folderPath =
     [''-json'', ''-fast'',
      ''-ext'', ''jpg'', ''-ext'', ''jpeg'', ''-ext'', ''png'',
      ''-ext'', ''JPG'', ''-ext'', ''JPEG'', ''-ext'', ''PNG'',
      ''-Rating'', ''-Label'', ''-file:FileName'', ''-file:FileSize'',
      ''-file:FileModifyDate'']
     @ (if recursive then [''-r''] else [])
     @ [folderPath]"

text \<open>The values that follow an \<^verbatim>\<open>-ext\<close> in an argument list.\<close>

fun ext_values :: "string list \<Rightarrow> string list" where
  "ext_values (a # b # rest) =
     (if a = ''-ext'' then b # ext_values rest else ext_values (b # rest))"
| "ext_values _ = []"

text \<open>
  One record per item:
  \<^verbatim>\<open>{ name: item.FileName, path: item.SourceFile, size: item.FileSize,
     rating: item.Rating || 0, label: item.Label || null }\<close>.
\<close>

definition toPhoto :: "raw_item \<Rightarrow> photo" where
  "toPhoto item =
     \<lparr>name = FileName item, path = SourceFile item, size_p = FileSize item,
      rating = (case Rating item of None \<Rightarrow> 0 | Some r \<Rightarrow> if r = 0 then 0 else r),
      label = (case Label item of None \<Rightarrow> None | Some s \<Rightarrow> if s = [] then None else Some s)\<rparr>"

text \<open>
  \<^verbatim>\<open>Array.prototype.sort\<close> with a comparison function: a stable sort, here by insertion
  (an element goes before the first element that it does not follow).
\<close>

fun insert_cmp :: "('a \<Rightarrow> 'a \<Rightarrow> int) \<Rightarrow> 'a \<Rightarrow> 'a list \<Rightarrow> 'a list" where
  "insert_cmp cmp x [] = [x]"
| "insert_cmp cmp x (y # ys) =
     (if cmp x y \<le> 0 then x # y # ys else y # insert_cmp cmp x ys)"

definition js_sort :: "('a \<Rightarrow> 'a \<Rightarrow> int) \<Rightarrow> 'a list \<Rightarrow> 'a list" where
  "js_sort cmp xs = foldr (insert_cmp cmp) xs []"

text \<open>The answer of \<^verbatim>\<open>GET /api/photos\<close>: the JSON with the photos, or status 500.\<close>

datatype photos_response = PhotosJson string "photo list" | PhotosError500 string

text \<open>
  The handler of \<^verbatim>\<open>GET /api/photos\<close>, with the lines it writes with
  \<^verbatim>\<open>console.error\<close>. A missing binary throws inside the outer \<^verbatim>\<open>try\<close>, whose
  \<^verbatim>\<open>catch\<close> answers 500; an error of the tool and a failing parse answer an empty list.
\<close>

definition getPhotos ::
  "scan_env \<Rightarrow> string option \<Rightarrow> string option \<Rightarrow> photos_response \<times> string list" where
  "getPhotos env queryPath queryRecursive =
     (let folderPath = getSafePath env queryPath;
          recursive = (queryRecursive = Some ''true'')
      in case exiftool_binary env of
           None \<Rightarrow>
             (PhotosError500 ''Exiftool binary not found'',
              [''Could not find exiftool binary path:'', ''Error scanning folder:''])
         | Some exiftoolPath \<Rightarrow>
             (case execFile env exiftoolPath (exiftool_args recursive folderPath) of
                ExecError err \<Rightarrow> (PhotosJson folderPath [], [''Exiftool error:''])
              | ExecOk out \<Rightarrow>
                  (case json_parse env out of
                     None \<Rightarrow> (PhotosJson folderPath [], [''JSON Parse error:''])
                   | Some rawData \<Rightarrow>
                       (PhotosJson folderPath
                          (js_sort (\<lambda>a b. localeCompare env (name a) (name b))
                             (map toPhoto rawData)),
                        []))))"

subsection \<open>The frontend's scan\<close>

text \<open>
  What \<^verbatim>\<open>fetch\<close> and \<^verbatim>\<open>res.json()\<close> give \<^verbatim>\<open>fetchPhotos\<close>: a rejection, or the body
  of the server's answer.
\<close>

datatype photos_fetch = FetchFailed | FetchJson photos_response

text \<open>\<^verbatim>\<open>data.photos || []\<close>: the error body of a 500 has no \<^verbatim>\<open>photos\<close>.\<close>

definition data_photos :: "photos_response \<Rightarrow> photo list" where
  "data_photos data = (case data of PhotosJson p ps \<Rightarrow> ps | PhotosError500 e \<Rightarrow> [])"

text \<open>
  \<^verbatim>\<open>fetchPhotos\<close>: \<^verbatim>\<open>setAllPhotos(data.photos || [])\<close>, and in the \<^verbatim>\<open>catch\<close>
  \<^verbatim>\<open>console.error\<close> and \<^verbatim>\<open>setAllPhotos([])\<close>.
\<close>

definition fetchPhotos ::
  "photos_fetch \<Rightarrow> app_state \<times> string list \<Rightarrow> app_state \<times> string list" where
  "fetchPhotos res stl =
     (case stl of (st, log) \<Rightarrow>
        (case res of
           FetchJson data \<Rightarrow> (st\<lparr>allPhotos := data_photos data\<rparr>, log)
         | FetchFailed \<Rightarrow> (st\<lparr>allPhotos := []\<rparr>, log @ [''Failed to load photos''])))"

text \<open>
  A scan from the frontend to the server and back: the request
  \<^verbatim>\<open>/photos?path=...&recursive=...\<close>, the handler when the server is reached, and
  \<^verbatim>\<open>fetchPhotos\<close> on its answer. The result is the new state with the lines written by
  the server and by the frontend.
\<close>

definition scan ::
  "scan_env \<Rightarrow> bool \<Rightarrow> string \<Rightarrow> bool \<Rightarrow> app_state \<Rightarrow> app_state \<times> string list" where
  "scan env reachable currentPath isRecursive st =
     (if reachable then
        (case getPhotos env (Some currentPath)
                (Some (if isRecursive then ''true'' else ''false'')) of
           (resp, serverLog) \<Rightarrow> fetchPhotos (FetchJson resp) (st, serverLog))
      else fetchPhotos FetchFailed (st, []))"

subsection \<open>Writing the metadata of a file\<close>

text \<open>A value of a tag in \<^verbatim>\<open>tagsToWrite\<close>: a number, a string, \<^verbatim>\<open>null\<close> or an array of strings.\<close>

datatype tag_value = TNum int | TStr string | TNull | TList "string list"

text \<open>
  \<^verbatim>\<open>currentMeta.Keywords\<close> as the tool's library returns it: absent, one string, or an
  array of strings.
\<close>

datatype keywords_field = KwAbsent | KwString string | KwArray "string list"

text \<open>
  The library of the tool: \<^verbatim>\<open>exiftool.read(file)\<close> (\<open>None\<close> when it throws) and
  \<^verbatim>\<open>exiftool.write(file, tags, ['-overwrite_original'])\<close> (\<open>False\<close> when it throws).
\<close>

record meta_env =
  exiftool_read :: "string \<Rightarrow> keywords_field option"
  exiftool_write :: "string \<Rightarrow> (string \<times> tag_value) list \<Rightarrow> bool"

text \<open>\<^verbatim>\<open>const ratingMap = { 0: 0, 1: 1, 2: 25, 3: 50, 4: 75, 5: 99 }\<close>\<close>

definition ratingMap :: "int \<Rightarrow> int option" where
  "ratingMap r =
     (if r = 0 then Some 0 else if r = 1 then Some 1 else if r = 2 then Some 25
      else if r = 3 then Some 50 else if r = 4 then Some 75 else if r = 5 then Some 99
      else None)"

text \<open>
  The tags written for a rating that is not \<^verbatim>\<open>undefined\<close>:
  \<^verbatim>\<open>
    tagsToWrite['Rating'] = rating;
    tagsToWrite['XMP:Rating'] = rating;
    tagsToWrite['RatingPercent'] = ratingMap[rating] || 0;
  \<close>
\<close>

definition ratingTags :: "int option \<Rightarrow> (string \<times> tag_value) list" where
  "ratingTags reqRating =
     (case reqRating of
        None \<Rightarrow> []
      | Some r \<Rightarrow>
          [(''Rating'', TNum r), (''XMP:Rating'', TNum r),
           (''RatingPercent'',
            TNum (case ratingMap r of None \<Rightarrow> 0 | Some v \<Rightarrow> if v = 0 then 0 else v))])"

definition colorLabels :: "string list" where
  "colorLabels = [''Red'', ''Yellow'', ''Green'', ''Blue'', ''Purple'', ''Orange'', ''Gray'']"

text \<open>\<^verbatim>\<open>keywords.join(';')\<close>\<close>

fun join_semicolon :: "string list \<Rightarrow> string" where
  "join_semicolon [] = []"
| "join_semicolon [k] = k"
| "join_semicolon (k # ks) = k @ '';'' @ join_semicolon ks"

text \<open>
  The tags written for a label that is not \<^verbatim>\<open>undefined\<close>, from the keywords the file
  has: the colour names are removed from the keywords and a label that is truthy is
  appended.
\<close>

definition labelTags :: "keywords_field \<Rightarrow> string option \<Rightarrow> (string \<times> tag_value) list" where
  "labelTags current lab =
     (let keywords = (case current of
                        KwAbsent \<Rightarrow> []
                      | KwString s \<Rightarrow> if s = [] then [] else [s]
                      | KwArray ks \<Rightarrow> ks);
          keywords = filter (\<lambda>k. k \<notin> set colorLabels) keywords;
          keywords = (case lab of
                        None \<Rightarrow> keywords
                      | Some s \<Rightarrow> if s = [] then keywords else keywords @ [s]);
          labelValue = (case lab of None \<Rightarrow> TNull | Some s \<Rightarrow> TStr s)
      in [(''Label'', labelValue), (''XMP:Label'', labelValue),
          (''Keywords'', TList keywords), (''Subject'', TList keywords),
          (''XPKeywords'', TStr (join_semicolon keywords))])"

datatype meta_response = MetaSuccess | MetaBadRequest400 | MetaError500

text \<open>
  The handler of \<^verbatim>\<open>POST /api/metadata\<close>: its answer, and the write it made (the file and
  the tags) when the write succeeded. There is no check of the rating.
\<close>

definition postMetadata ::
  "meta_env \<Rightarrow> meta_request \<Rightarrow> meta_response \<times> (string \<times> (string \<times> tag_value) list) option" where
  "postMetadata env req =
     (case req_file req of
        None \<Rightarrow> (MetaBadRequest400, None)
      | Some file \<Rightarrow>
          if file = [] then (MetaBadRequest400, None)
          else
            (let tagsToWrite = ratingTags (req_rating req);
                 labelPart = (case req_label req of
                                None \<Rightarrow> Some []
                              | Some lab \<Rightarrow>
                                  (case exiftool_read env file of
                                     None \<Rightarrow> None
                                   | Some current \<Rightarrow> Some (labelTags current lab)))
             in case labelPart of
                  None \<Rightarrow> (MetaError500, None)
                | Some labelPart' \<Rightarrow>
                    if exiftool_write env file (tagsToWrite @ labelPart')
                    then (MetaSuccess, Some (file, tagsToWrite @ labelPart'))
                    else (MetaError500, None)))"

text \<open>The rating a write stores: the value of its \<^verbatim>\<open>Rating\<close> tag.\<close>

definition stored_rating :: "(string \<times> (string \<times> tag_value) list) option \<Rightarrow> int option" where
  "stored_rating w =
     (case w of
        None \<Rightarrow> None
      | Some (file, tags) \<Rightarrow>
          (case map_of tags ''Rating'' of Some (TNum r) \<Rightarrow> Some r | _ \<Rightarrow> None))"

subsection \<open>Copying files\<close>

text \<open>
  The file system as the handler of \<^verbatim>\<open>POST /api/copy-files\<close> uses it:
  \<^verbatim>\<open>fs.existsSync\<close>, \<^verbatim>\<open>fs.promises.mkdir\<close> and \<^verbatim>\<open>fs.promises.copyFile\<close> (\<open>False\<close>
  when they throw), \<^verbatim>\<open>path.basename\<close> and \<^verbatim>\<open>path.join\<close>.
\<close>

record copy_env =
  existsSync :: "string \<Rightarrow> bool"
  mkdir :: "string \<Rightarrow> bool"
  copyFile :: "string \<Rightarrow> string \<Rightarrow> bool"
  basename :: "string \<Rightarrow> string"
  path_join :: "string \<Rightarrow> string \<Rightarrow> string"

datatype copy_response = CopySuccess nat | CopyBadRequest400 | CopyError500

text \<open>
  The loop over the files, with the count and the copies made so far. A copy that throws
  leaves the loop: the \<^verbatim>\<open>await\<close> is inside the handler's only \<^verbatim>\<open>try\<close>.
  \<^verbatim>\<open>
    let count = 0;
    for (const file of files) {
      const fileName = path.basename(file);
      const destPath = path.join(destination, fileName);
      await fs.promises.copyFile(file, destPath);
      count++;
    }
  \<close>
\<close>

fun copyLoop ::
  "copy_env \<Rightarrow> string \<Rightarrow> string list \<Rightarrow> nat \<Rightarrow> (string \<times> string) list \<Rightarrow>
   nat option \<times> (string \<times> string) list" where
  "copyLoop env destination [] count' copied = (Some count', copied)"
| "copyLoop env destination (file # rest) count' copied =
     (let fileName = basename env file;
          destPath = path_join env destination fileName
      in if copyFile env file destPath
         then copyLoop env destination rest (count' + 1) (copied @ [(file, destPath)])
         else (None, copied))"

text \<open>
  The handler: its answer and the copies it made. \<^verbatim>\<open>files\<close> is \<open>None\<close> when the body has
  no array there; \<^verbatim>\<open>destination\<close> is \<open>None\<close> when it is missing.
\<close>

definition copyFiles ::
  "copy_env \<Rightarrow> string list option \<Rightarrow> string option \<Rightarrow> copy_response \<times> (string \<times> string) list" where
  "copyFiles env files destination =
     (case files of
        None \<Rightarrow> (CopyBadRequest400, [])
      | Some fs \<Rightarrow>
          (case destination of
             None \<Rightarrow> (CopyBadRequest400, [])
           | Some dest \<Rightarrow>
               if dest = [] then (CopyBadRequest400, [])
               else if \<not> existsSync env dest \<and> \<not> mkdir env dest then (CopyError500, [])
               else (case copyLoop env dest fs 0 [] of
                       (Some count', copied) \<Rightarrow> (CopySuccess count', copied)
                     | (None, copied) \<Rightarrow> (CopyError500, copied))))"

text \<open>Where the handler copies a file to.\<close>

definition copy_target :: "copy_env \<Rightarrow> string \<Rightarrow> string \<Rightarrow> string \<times> string" where
  "copy_target env dest file = (file, path_join env dest (basename env file))"

definition copy_succeeds :: "copy_env \<Rightarrow> string \<Rightarrow> string \<Rightarrow> bool" where
  "copy_succeeds env dest file = copyFile env file (path_join env dest (basename env file))"

subsection \<open>Notions of the specification about the scan\<close>

text \<open>
  What the metadata gateway gives for a directory: the items of the tool's output, or
  \<open>None\<close> when it fails (the binary is missing, the tool reports an error, or its output
  does not parse).
\<close>

definition tool_listing :: "scan_env \<Rightarrow> bool \<Rightarrow> string \<Rightarrow> raw_item list option" where
  "tool_listing env recursive folderPath =
     (case exiftool_binary env of
        None \<Rightarrow> None
      | Some exiftoolPath \<Rightarrow>
          (case execFile env exiftoolPath (exiftool_args recursive folderPath) of
             ExecError err \<Rightarrow> None
           | ExecOk out \<Rightarrow> json_parse env out))"

text \<open>
  A comparison function that orders all strings: any two are comparable and the order is
  transitive, as for \<^verbatim>\<open>localeCompare\<close>.
\<close>

definition consistent_compare :: "(string \<Rightarrow> string \<Rightarrow> int) \<Rightarrow> bool" where
  "consistent_compare cmp \<longleftrightarrow>
     (\<forall>a b. cmp a b \<le> 0 \<or> cmp b a \<le> 0)
     \<and> (\<forall>a b c. cmp a b \<le> 0 \<and> cmp b c \<le> 0 \<longrightarrow> cmp a c \<le> 0)"

text \<open>The photo list of a listing: one record per item, sorted by name.\<close>

definition listed_photos :: "scan_env \<Rightarrow> raw_item list \<Rightarrow> photo list" where
  "listed_photos env items =
     js_sort (\<lambda>a b. localeCompare env (name a) (name b)) (map toPhoto items)"

text \<open>
  The step \<^verbatim>\<open>next()\<close> of the specification: from the current index and the length
  \<open>n\<close> of the current visible set to \<open>min (index + 1) (n - 1)\<close>.
\<close>

definition spec_next :: "int \<Rightarrow> nat \<Rightarrow> int" where
  "spec_next index n = min (index + 1) (int n - 1)"

text \<open>Ratings in the range of the data model.\<close>

definition ratings_in_range :: "photo list \<Rightarrow> bool" where
  "ratings_in_range ps = list_all (\<lambda>p. 0 \<le> rating p \<and> rating p \<le> 5) ps"

section \<open>Concrete catalogs and surroundings\<close>

text \<open>A comparison of names by their first character, as a number like \<^verbatim>\<open>localeCompare\<close> gives.\<close>

definition first_char_key :: "string \<Rightarrow> nat" where
  "first_char_key s = (case s of [] \<Rightarrow> 0 | c # cs \<Rightarrow> Suc (of_char c))"

definition first_char_cmp :: "string \<Rightarrow> string \<Rightarrow> int" where
  "first_char_cmp a b = int (first_char_key a) - int (first_char_key b)"

definition mkPhoto :: "string \<Rightarrow> int \<Rightarrow> string option \<Rightarrow> photo" where
  "mkPhoto n r l = \<lparr>name = n, path = ''/photos/'' @ n, size_p = ''1 kB'', rating = r, label = l\<rparr>"

text \<open>The catalog of the specification's scenario: A unrated, B with five stars and Red, C with three stars.\<close>

definition catalog3 :: "photo list" where
  "catalog3 = [mkPhoto ''A.jpg'' 0 None, mkPhoto ''B.jpg'' 5 (Some ''Red''), mkPhoto ''C.jpg'' 3 None]"

definition catalog5 :: "photo list" where
  "catalog5 = [mkPhoto ''1.jpg'' 0 None, mkPhoto ''2.jpg'' 0 None, mkPhoto ''3.jpg'' 0 None,
               mkPhoto ''4.jpg'' 0 None, mkPhoto ''5.jpg'' 0 None]"

text \<open>Five visible photos, no filter, the selection at \<open>i\<close>.\<close>

definition state5 :: "int \<Rightarrow> app_state" where
  "state5 i = \<lparr>allPhotos = catalog5, photos = catalog5, selectedIndex = i,
               filterRating = 0, filterColor = ''All'', columnsCount = 3\<rparr>"

text \<open>The scenario's catalog under the filter "three stars or more, any colour", B selected.\<close>

definition state3 :: app_state where
  "state3 = \<lparr>allPhotos = catalog3,
             photos = [mkPhoto ''B.jpg'' 5 (Some ''Red''), mkPhoto ''C.jpg'' 3 None],
             selectedIndex = 0, filterRating = 3, filterColor = ''All'', columnsCount = 3\<rparr>"

text \<open>The tool's output for the directory \<^verbatim>\<open>/photos\<close>, in the order C, A, B.\<close>

definition items3 :: "raw_item list" where
  "items3 =
     [\<lparr>FileName = ''C.jpg'', SourceFile = ''/photos/C.jpg'', FileSize = ''1 kB'',
       Rating = Some 3, Label = None\<rparr>,
      \<lparr>FileName = ''A.jpg'', SourceFile = ''/photos/A.jpg'', FileSize = ''1 kB'',
       Rating = None, Label = Some []\<rparr>,
      \<lparr>FileName = ''B.jpg'', SourceFile = ''/photos/B.jpg'', FileSize = ''1 kB'',
       Rating = Some 5, Label = Some ''Red''\<rparr>]"

text \<open>
  Surroundings in which the tool lists \<^verbatim>\<open>/photos\<close>, prints something that does not parse
  for \<^verbatim>\<open>/garbled\<close>, and reports an error for every other directory.
\<close>

definition env_ok :: scan_env where
  "env_ok =
     \<lparr>dirname = ''/photos/PhotoPicks/backend'',
      path_resolve = (\<lambda>args. if args = [''/photos/PhotoPicks/backend'', ''../..'']
                             then ''/photos'' else last args),
      exiftool_binary = Some ''exiftool.exe'',
      execFile = (\<lambda>exe args. if last args = ''/photos'' then ExecOk ''items''
                              else if last args = ''/garbled'' then ExecOk ''garbled''
                              else ExecError ''File not found''),
      json_parse = (\<lambda>out. if out = ''items'' then Some items3 else None),
      localeCompare = first_char_cmp\<rparr>"

text \<open>The same surroundings without the tool's binary.\<close>

definition env_no_tool :: scan_env where
  "env_no_tool = env_ok\<lparr>exiftool_binary := None\<rparr>"

text \<open>A library of the tool whose reads and writes succeed.\<close>

definition meta_env_ok :: meta_env where
  "meta_env_ok = \<lparr>exiftool_read = (\<lambda>file. Some KwAbsent), exiftool_write = (\<lambda>file tags. True)\<rparr>"

text \<open>A batch of five files whose third file is missing, and the file system for it.\<close>

definition batch5 :: "string list" where
  "batch5 = [''/src/1.jpg'', ''/src/2.jpg'', ''/src/3.jpg'', ''/src/4.jpg'', ''/src/5.jpg'']"

definition copy_env_missing3 :: copy_env where
  "copy_env_missing3 =
     \<lparr>existsSync = (\<lambda>d. True), mkdir = (\<lambda>d. True),
      copyFile = (\<lambda>src dst. src \<noteq> ''/src/3.jpg''),
      basename = (\<lambda>f. drop 5 f),
      path_join = (\<lambda>d f. d @ ''/'' @ f)\<rparr>"

definition copy_env_all_present :: copy_env where
  "copy_env_all_present = copy_env_missing3\<lparr>copyFile := (\<lambda>src dst. True)\<rparr>"

section \<open>The filter pipeline\<close>

lemma rating_or_0_id: "rating_or_0 r = r"
  by (simp add: rating_or_0_def)

lemma filterPhotos_as_filter:
  "filterPhotos fr fc all =
     filter (\<lambda>p. (fr > 0 \<longrightarrow> rating p \<ge> fr) \<and> (fc \<noteq> ''All'' \<longrightarrow> label p = Some fc)) all"
  by (simp add: filterPhotos_def Let_def rating_or_0_id conj_commute)

lemma name_ascending_filter:
  "name_ascending le ps \<Longrightarrow> name_ascending le (filter P ps)"
  by (simp add: name_ascending_def sorted_wrt_filter)

text \<open>
  Claim C1. On a catalog whose ratings are not negative (the data model's ratings are
  0 to 5), the visible set computed by the filter is exactly the list of the records
  that satisfy the rating and label predicate, in the catalog's order; so when the
  catalog is in ascending name order, the visible set is too.
\<close>

theorem filter_visible_set_exact:
  assumes "\<forall>p \<in> set C. 0 \<le> rating p"
  shows "filterPhotos minRating critLabel C = filter (spec_included minRating critLabel) C
       \<and> set (filterPhotos minRating critLabel C) = {p \<in> set C. spec_included minRating critLabel p}
       \<and> (name_ascending le C \<longrightarrow> name_ascending le (filterPhotos minRating critLabel C))"
proof -
  have same: "filterPhotos minRating critLabel C = filter (spec_included minRating critLabel) C"
    unfolding filterPhotos_as_filter
  proof (rule filter_cong [OF refl])
    fix p assume "p \<in> set C"
    with assms have "0 \<le> rating p" by blast
    then show "((0 < minRating \<longrightarrow> minRating \<le> rating p) \<and>
                (critLabel \<noteq> ''All'' \<longrightarrow> label p = Some critLabel))
               = spec_included minRating critLabel p"
      by (auto simp: spec_included_def)
  qed
  moreover have "set (filter (spec_included minRating critLabel) C)
                 = {p \<in> set C. spec_included minRating critLabel p}"
    by simp
  moreover have "name_ascending le C \<longrightarrow>
                 name_ascending le (filter (spec_included minRating critLabel) C)"
    by (simp add: name_ascending_filter)
  ultimately show ?thesis by simp
qed

lemma filterPhotos_idem: "filterPhotos fr fc (filterPhotos fr fc C) = filterPhotos fr fc C"
  by (simp add: filterPhotos_as_filter)

lemma photos_filterEffect:
  "photos (filterEffect st) = filterPhotos (filterRating st) (filterColor st) (allPhotos st)"
  by (simp add: filterEffect_def Let_def)

lemma selectedIndex_filterEffect:
  "selectedIndex (filterEffect st) = clampIndex (selectedIndex st) (length (photos (filterEffect st)))"
  by (simp add: filterEffect_def Let_def)

lemma filterEffect_frame:
  "allPhotos (filterEffect st) = allPhotos st"
  "filterRating (filterEffect st) = filterRating st"
  "filterColor (filterEffect st) = filterColor st"
  "columnsCount (filterEffect st) = columnsCount st"
  by (simp_all add: filterEffect_def Let_def)

lemma catalog3_visible:
  "filterPhotos 3 ''All'' catalog3 = [mkPhoto ''B.jpg'' 5 (Some ''Red''), mkPhoto ''C.jpg'' 3 None]"
  by (simp add: filterPhotos_def catalog3_def mkPhoto_def rating_or_0_def)

theorem filter_visible_set_exact_witness:
  "list_all (\<lambda>p. 0 \<le> rating p) catalog3
   \<and> name_ascending (\<lambda>a b. first_char_cmp a b \<le> 0) catalog3
   \<and> filter (spec_included 3 ''All'') catalog3
       = [mkPhoto ''B.jpg'' 5 (Some ''Red''), mkPhoto ''C.jpg'' 3 None]
   \<and> name_ascending (\<lambda>a b. first_char_cmp a b \<le> 0) (filterPhotos 3 ''All'' catalog3)"
proof -
  have h: "\<forall>p \<in> set catalog3. 0 \<le> rating p"
    by (simp add: catalog3_def mkPhoto_def)
  have asc: "name_ascending (\<lambda>a b. first_char_cmp a b \<le> 0) catalog3"
    by (simp add: name_ascending_def catalog3_def mkPhoto_def first_char_cmp_def first_char_key_def)
  note t = filter_visible_set_exact [OF h, of 3 "''All''" "\<lambda>a b. first_char_cmp a b \<le> 0"]
  from t have eq: "filter (spec_included 3 ''All'') catalog3 = filterPhotos 3 ''All'' catalog3"
    by simp
  from t asc have "name_ascending (\<lambda>a b. first_char_cmp a b \<le> 0) (filterPhotos 3 ''All'' catalog3)"
    by blast
  with h asc eq show ?thesis by (simp only: catalog3_visible list_all_iff)
qed

text \<open>
  Claim C2. Filtering the visible set again with the same criteria gives the same visible
  set, also when the visible set is put in the place of the catalog; and the filter
  effect leaves the catalog and the criteria as they are.
\<close>

theorem filter_idempotent_and_pure:
  "filterPhotos fr fc (filterPhotos fr fc C) = filterPhotos fr fc C
   \<and> photos (filterEffect (st\<lparr>allPhotos := photos (filterEffect st)\<rparr>)) = photos (filterEffect st)
   \<and> photos (filterEffect (filterEffect st)) = photos (filterEffect st)
   \<and> allPhotos (filterEffect st) = allPhotos st
   \<and> filterRating (filterEffect st) = filterRating st
   \<and> filterColor (filterEffect st) = filterColor st"
  by (simp add: photos_filterEffect filterEffect_frame filterPhotos_idem)

theorem filter_idempotent_and_pure_witness:
  "filterPhotos 3 ''All'' (filterPhotos 3 ''All'' catalog3)
     = [mkPhoto ''B.jpg'' 5 (Some ''Red''), mkPhoto ''C.jpg'' 3 None]
   \<and> allPhotos (filterEffect state3) = catalog3"
  using filter_idempotent_and_pure [of 3 "''All''" catalog3 state3]
  by (simp add: catalog3_visible state3_def)

section \<open>The selection\<close>

lemma clampIndex_bounds:
  "0 \<le> i \<Longrightarrow> 0 < n \<Longrightarrow> 0 \<le> clampIndex i n \<and> clampIndex i n \<le> int n - 1"
  by (simp add: clampIndex_def)

lemma clampIndex_empty: "0 \<le> i \<Longrightarrow> clampIndex i 0 = 0"
  by (simp add: clampIndex_def)

text \<open>
  Claim C3. The clamp is \<open>min i (max 0 (n - 1))\<close>. For an index that is not negative
  it lies between 0 and \<open>n - 1\<close> when the visible set has \<open>n > 0\<close> elements, and the
  filter effect then leaves a current photo; when the visible set is empty the clamp is
  0, the fixed value at which there is no current photo.
\<close>

theorem clamp_selection_in_range:
  "clampIndex i n = min i (max 0 (int n - 1))
   \<and> (0 \<le> i \<and> 0 < n \<longrightarrow> 0 \<le> clampIndex i n \<and> clampIndex i n \<le> int n - 1)
   \<and> (0 \<le> i \<and> n = 0 \<longrightarrow> clampIndex i n = 0)
   \<and> (0 \<le> selectedIndex st \<and> photos (filterEffect st) \<noteq> [] \<longrightarrow>
        0 \<le> selectedIndex (filterEffect st)
        \<and> selectedIndex (filterEffect st) < int (length (photos (filterEffect st)))
        \<and> currentPhoto (filterEffect st)
            = Some (photos (filterEffect st) ! nat (selectedIndex (filterEffect st))))
   \<and> (0 \<le> selectedIndex st \<and> photos (filterEffect st) = [] \<longrightarrow>
        selectedIndex (filterEffect st) = 0 \<and> currentPhoto (filterEffect st) = None)"
proof -
  have a: "clampIndex i n = min i (max 0 (int n - 1))"
    by (simp add: clampIndex_def)
  have b: "0 \<le> i \<and> 0 < n \<longrightarrow> 0 \<le> clampIndex i n \<and> clampIndex i n \<le> int n - 1"
    using clampIndex_bounds by blast
  have c: "0 \<le> i \<and> n = 0 \<longrightarrow> clampIndex i n = 0"
    using clampIndex_empty by blast
  have d: "0 \<le> selectedIndex st \<and> photos (filterEffect st) \<noteq> [] \<longrightarrow>
        0 \<le> selectedIndex (filterEffect st)
        \<and> selectedIndex (filterEffect st) < int (length (photos (filterEffect st)))
        \<and> currentPhoto (filterEffect st)
            = Some (photos (filterEffect st) ! nat (selectedIndex (filterEffect st)))"
  proof
    assume h: "0 \<le> selectedIndex st \<and> photos (filterEffect st) \<noteq> []"
    then have "0 < length (photos (filterEffect st))" by simp
    with h clampIndex_bounds [of "selectedIndex st" "length (photos (filterEffect st))"]
    have "0 \<le> selectedIndex (filterEffect st)
          \<and> selectedIndex (filterEffect st) \<le> int (length (photos (filterEffect st))) - 1"
      by (simp add: selectedIndex_filterEffect [symmetric])
    then show "0 \<le> selectedIndex (filterEffect st)
        \<and> selectedIndex (filterEffect st) < int (length (photos (filterEffect st)))
        \<and> currentPhoto (filterEffect st)
            = Some (photos (filterEffect st) ! nat (selectedIndex (filterEffect st)))"
      by (simp add: currentPhoto_def js_index_def)
  qed
  have e: "0 \<le> selectedIndex st \<and> photos (filterEffect st) = [] \<longrightarrow>
        selectedIndex (filterEffect st) = 0 \<and> currentPhoto (filterEffect st) = None"
  proof
    assume h: "0 \<le> selectedIndex st \<and> photos (filterEffect st) = []"
    then have "selectedIndex (filterEffect st) = 0"
      using selectedIndex_filterEffect [of st] by (simp add: clampIndex_empty)
    with h show "selectedIndex (filterEffect st) = 0 \<and> currentPhoto (filterEffect st) = None"
      by (simp add: currentPhoto_def js_index_def)
  qed
  from a b c d e show ?thesis by blast
qed

theorem clamp_selection_in_range_witness:
  "clampIndex 7 3 = 2 \<and> clampIndex 7 0 = 0
   \<and> selectedIndex (filterEffect (state3\<lparr>selectedIndex := 7\<rparr>)) = 1
   \<and> currentPhoto (filterEffect (state3\<lparr>selectedIndex := 7\<rparr>)) = Some (mkPhoto ''C.jpg'' 3 None)
   \<and> currentPhoto (filterEffect (state3\<lparr>selectedIndex := 7, filterColor := ''Blue''\<rparr>)) = None"
proof -
  have v: "photos (filterEffect (state3\<lparr>selectedIndex := 7\<rparr>))
           = [mkPhoto ''B.jpg'' 5 (Some ''Red''), mkPhoto ''C.jpg'' 3 None]"
    by (simp add: photos_filterEffect state3_def catalog3_visible)
  have w: "photos (filterEffect (state3\<lparr>selectedIndex := 7, filterColor := ''Blue''\<rparr>)) = []"
    by (simp add: photos_filterEffect state3_def filterPhotos_def catalog3_def mkPhoto_def
        rating_or_0_def)
  have s: "selectedIndex (filterEffect (state3\<lparr>selectedIndex := 7\<rparr>)) = 1"
    by (simp add: selectedIndex_filterEffect v) (simp add: state3_def clampIndex_def)
  from clamp_selection_in_range [of 7 3 "state3\<lparr>selectedIndex := 7\<rparr>"]
       clamp_selection_in_range [of 7 0 "state3\<lparr>selectedIndex := 7, filterColor := ''Blue''\<rparr>"]
       v w s
  show ?thesis by (simp add: state3_def)
qed


section \<open>The optimistic update\<close>

lemma updateList_length: "length (updateList k r l C) = length C"
  by (simp add: updateList_def)

lemma updateList_nth_other:
  "i < length C \<Longrightarrow> path (C ! i) \<noteq> k \<Longrightarrow> updateList k r l C ! i = C ! i"
  by (simp add: updateList_def)

lemma updateList_nth_match:
  "i < length C \<Longrightarrow> path (C ! i) = k \<Longrightarrow>
   updateList k r l C ! i =
     (C ! i)\<lparr>rating := (case r of None \<Rightarrow> rating (C ! i) | Some v \<Rightarrow> v),
             label := (case l of None \<Rightarrow> label (C ! i) | Some v \<Rightarrow> v)\<rparr>"
  by (simp add: updateList_def)

lemma updateList_fields:
  "map path (updateList k r l C) = map path C"
  "map name (updateList k r l C) = map name C"
  "map size_p (updateList k r l C) = map size_p C"
  by (simp_all add: updateList_def)

lemma updateList_absent: "k \<notin> path ` set C \<Longrightarrow> updateList k r l C = C"
  by (induction C) (auto simp: updateList_def)

lemma updateList_only_rating:
  "i < length C \<Longrightarrow> label (updateList k (Some v) None C ! i) = label (C ! i)"
  by (simp add: updateList_def)

lemma updateList_only_label:
  "i < length C \<Longrightarrow> rating (updateList k None (Some v) C ! i) = rating (C ! i)"
  by (simp add: updateList_def)

text \<open>
  Claim C5. The optimistic update keeps the length of the catalog and the path, name and
  size at every position; a record with another path is unchanged; a record with the
  path gets the rating and the label that are given and keeps the one that is not; with
  only a rating no label changes, with only a label no rating changes; and when no
  record has the path the catalog is unchanged.
\<close>

theorem optimistic_update_frame:
  "length (updateList k r l C) = length C
   \<and> map path (updateList k r l C) = map path C
   \<and> map name (updateList k r l C) = map name C
   \<and> map size_p (updateList k r l C) = map size_p C
   \<and> (\<forall>i < length C. path (C ! i) \<noteq> k \<longrightarrow> updateList k r l C ! i = C ! i)
   \<and> (\<forall>i < length C. path (C ! i) = k \<longrightarrow>
         updateList k r l C ! i =
           (C ! i)\<lparr>rating := (case r of None \<Rightarrow> rating (C ! i) | Some v \<Rightarrow> v),
                   label := (case l of None \<Rightarrow> label (C ! i) | Some v \<Rightarrow> v)\<rparr>)
   \<and> (\<forall>i < length C. label (updateList k (Some v) None C ! i) = label (C ! i))
   \<and> (\<forall>i < length C. rating (updateList k None (Some w) C ! i) = rating (C ! i))
   \<and> (k \<notin> path ` set C \<longrightarrow> updateList k r l C = C)"
  using updateList_nth_other [of _ C k r l] updateList_nth_match [of _ C k r l]
        updateList_only_rating [of _ C k v] updateList_only_label [of _ C k w]
        updateList_absent [of k C r l]
  by (simp add: updateList_length updateList_fields)

theorem optimistic_update_frame_witness:
  "updateList ''/photos/B.jpg'' None (Some (Some ''Green'')) catalog3
     = [mkPhoto ''A.jpg'' 0 None, mkPhoto ''B.jpg'' 5 (Some ''Green''), mkPhoto ''C.jpg'' 3 None]
   \<and> updateList ''/photos/B.jpg'' (Some 4) None catalog3
     = [mkPhoto ''A.jpg'' 0 None, mkPhoto ''B.jpg'' 4 (Some ''Red''), mkPhoto ''C.jpg'' 3 None]
   \<and> updateList ''/photos/Z.jpg'' (Some 4) (Some None) catalog3 = catalog3
   \<and> updateList ''/photos/B.jpg'' (Some 4) None catalog3 ! 0 = catalog3 ! 0
   \<and> label (updateList ''/photos/B.jpg'' (Some 4) None catalog3 ! 1) = label (catalog3 ! 1)"
proof -
  note t = optimistic_update_frame [of "''/photos/B.jpg''" "Some 4" None catalog3 4 None]
  have len: "length catalog3 = 3" by (simp add: catalog3_def)
  from t len have other: "updateList ''/photos/B.jpg'' (Some 4) None catalog3 ! 0 = catalog3 ! 0"
    by (simp add: catalog3_def mkPhoto_def)
  from t len have lab: "label (updateList ''/photos/B.jpg'' (Some 4) None catalog3 ! 1) = label (catalog3 ! 1)"
    by simp
  have "updateList ''/photos/B.jpg'' None (Some (Some ''Green'')) catalog3
     = [mkPhoto ''A.jpg'' 0 None, mkPhoto ''B.jpg'' 5 (Some ''Green''), mkPhoto ''C.jpg'' 3 None]"
    by (simp add: updateList_def catalog3_def mkPhoto_def)
  moreover have "updateList ''/photos/B.jpg'' (Some 4) None catalog3
     = [mkPhoto ''A.jpg'' 0 None, mkPhoto ''B.jpg'' 4 (Some ''Red''), mkPhoto ''C.jpg'' 3 None]"
    by (simp add: updateList_def catalog3_def mkPhoto_def)
  moreover have "updateList ''/photos/Z.jpg'' (Some 4) (Some None) catalog3 = catalog3"
    by (simp add: updateList_def catalog3_def mkPhoto_def)
  ultimately show ?thesis using other lab by blast
qed


section \<open>Auto-advance after a write\<close>

lemma updateList_Cons:
  "updateList k r l (x # xs) =
     (if path x = k
      then x\<lparr>rating := (case r of None \<Rightarrow> rating x | Some v \<Rightarrow> v),
             label := (case l of None \<Rightarrow> label x | Some v \<Rightarrow> v)\<rparr>
      else x) # updateList k r l xs"
  by (simp add: updateList_def)

text \<open>With distinct paths one record changes, so a filtered view loses one element at most.\<close>

lemma filter_updateList_length:
  "distinct (map path C) \<Longrightarrow>
   length (filter P C) \<le> Suc (length (filter P (updateList k r l C)))"
proof (induction C)
  case Nil
  then show ?case by (simp add: updateList_def)
next
  case (Cons x xs)
  show ?case
  proof (cases "path x = k")
    case True
    with Cons.prems have "k \<notin> path ` set xs" by auto
    then have "updateList k r l xs = xs" by (rule updateList_absent)
    then show ?thesis by (simp add: updateList_Cons)
  next
    case False
    with Cons show ?thesis by (simp add: updateList_Cons)
  qed
qed

lemma currentPhoto_SomeD:
  "currentPhoto st = Some cp \<Longrightarrow>
   0 \<le> selectedIndex st \<and> selectedIndex st < int (length (photos st))
   \<and> cp = photos st ! nat (selectedIndex st)"
  by (auto simp: currentPhoto_def js_index_def split: if_splits)

lemma updateMetadata_Some:
  "currentPhoto st = Some cp \<Longrightarrow>
   fst (updateMetadata r l outcome (st, log)) =
     autoAdvance (length (photos st))
       (filterEffect (st\<lparr>allPhotos := updateList (path cp) r l (allPhotos st)\<rparr>))"
  by (simp add: updateMetadata_def Let_def)

lemma updateMetadata_None:
  "currentPhoto st = None \<Longrightarrow> updateMetadata r l outcome (st, log) = (st, log)"
  by (simp add: updateMetadata_def)

lemma autoAdvance_fields:
  "selectedIndex (autoAdvance n st) = min (selectedIndex st + 1) (int n - 1)"
  "allPhotos (autoAdvance n st) = allPhotos st"
  "photos (autoAdvance n st) = photos st"
  "filterRating (autoAdvance n st) = filterRating st"
  "filterColor (autoAdvance n st) = filterColor st"
  "columnsCount (autoAdvance n st) = columnsCount st"
  by (simp_all add: autoAdvance_def)

lemma advance_after_clamp:
  fixes i :: int and n n' :: nat
  assumes "0 \<le> i" "i < int n" "n \<le> Suc n'"
  shows "min (clampIndex i n' + 1) (int n - 1) = min (i + 1) (int n - 1)"
  using assms by (auto simp: clampIndex_def min_def max_def)

text \<open>
  What the code computes: when a photo is current (index \<open>i\<close> in a visible set of
  length \<open>n\<close>, the filter settled, the paths of the catalog distinct), a rating or
  label update, run through the optimistic update, the filter effect and the timer,
  leaves the selection at \<open>min (i + 1) (n - 1)\<close> for the index and the length before
  the update, whatever the length of the visible set has become.
\<close>

lemma advance_from_captured_length:
  assumes "currentPhoto st = Some cp"
    and "photos st = filterPhotos (filterRating st) (filterColor st) (allPhotos st)"
    and "distinct (map path (allPhotos st))"
  shows "selectedIndex (fst (updateMetadata r l outcome (st, log)))
           = min (selectedIndex st + 1) (int (length (photos st)) - 1)
       \<and> selectedIndex (autoAdvance m st') = min (selectedIndex st' + 1) (int m - 1)"
proof -
  let ?st1 = "st\<lparr>allPhotos := updateList (path cp) r l (allPhotos st)\<rparr>"
  let ?n' = "length (photos (filterEffect ?st1))"
  from assms(1) have idx: "0 \<le> selectedIndex st" "selectedIndex st < int (length (photos st))"
    using currentPhoto_SomeD by blast+
  have "photos (filterEffect ?st1)
        = filterPhotos (filterRating st) (filterColor st) (updateList (path cp) r l (allPhotos st))"
    by (simp add: photos_filterEffect)
  with assms(2,3) have shrink: "length (photos st) \<le> Suc ?n'"
    by (simp add: filterPhotos_as_filter filter_updateList_length)
  have "selectedIndex (filterEffect ?st1) = clampIndex (selectedIndex st) ?n'"
    using selectedIndex_filterEffect [of ?st1] by simp
  then have "selectedIndex (fst (updateMetadata r l outcome (st, log)))
             = min (clampIndex (selectedIndex st) ?n' + 1) (int (length (photos st)) - 1)"
    using assms(1) by (simp add: updateMetadata_Some autoAdvance_fields)
  also have "\<dots> = min (selectedIndex st + 1) (int (length (photos st)) - 1)"
    using idx shrink by (rule advance_after_clamp)
  finally show ?thesis by (simp add: autoAdvance_fields)
qed

lemma catalog5_facts:
  "length catalog5 = 5"
  "distinct (map path catalog5)"
  "filterPhotos 0 ''All'' catalog5 = catalog5"
  by (simp_all add: catalog5_def mkPhoto_def filterPhotos_def)

lemma advance_five_unfiltered:
  "currentPhoto (state5 2) = Some (mkPhoto ''3.jpg'' 0 None)
   \<and> currentPhoto (state5 4) = Some (mkPhoto ''5.jpg'' 0 None)
   \<and> photos (state5 2) = filterPhotos (filterRating (state5 2)) (filterColor (state5 2)) (allPhotos (state5 2))
   \<and> distinct (map path (allPhotos (state5 2)))
   \<and> selectedIndex (fst (updateMetadata (Some 4) None WriteOk (state5 2, []))) = 3
   \<and> selectedIndex (fst (updateMetadata (Some 4) None WriteOk (state5 4, []))) = 4"
proof -
  have c2: "currentPhoto (state5 2) = Some (mkPhoto ''3.jpg'' 0 None)"
    by (simp add: currentPhoto_def js_index_def state5_def catalog5_def)
  have c4: "currentPhoto (state5 4) = Some (mkPhoto ''5.jpg'' 0 None)"
    by (simp add: currentPhoto_def js_index_def state5_def catalog5_def)
  have s: "photos (state5 i) = filterPhotos (filterRating (state5 i)) (filterColor (state5 i)) (allPhotos (state5 i))" for i
    by (simp add: state5_def catalog5_facts)
  have d: "distinct (map path (allPhotos (state5 i)))" for i
    by (simp add: state5_def catalog5_facts)
  from advance_from_captured_length [OF c2 s d, of "Some 4" None WriteOk "[]"]
  have r2: "selectedIndex (fst (updateMetadata (Some 4) None WriteOk (state5 2, []))) = 3"
    by (simp add: state5_def catalog5_facts)
  from advance_from_captured_length [OF c4 s d, of "Some 4" None WriteOk "[]"]
  have r4: "selectedIndex (fst (updateMetadata (Some 4) None WriteOk (state5 4, []))) = 4"
    by (simp add: state5_def catalog5_facts)
  from c2 c4 s [of 2] d [of 2] r2 r4 show ?thesis by blast
qed

text \<open>
  Claim C4. After a rating or label write the selection is to advance by one clamped
  step, \<open>min (i + 1) (n - 1)\<close> for the index \<open>i\<close> and the length \<open>n\<close> of the
  visible set. The timer of the code takes \<open>n\<close> from the list its closure captured
  before the write. In the scenario's catalog under the filter "three stars or more",
  with B selected (a current photo, the filter settled, the paths distinct), the key
  \<^verbatim>\<open>1\<close> rates B with one star: B leaves the visible set, the filter effect leaves the
  selection at 0 on the visible set \<open>[C]\<close>, where the step of the specification stays
  at 0, and the timer moves the selection to 1, past the end of the visible set, so that
  no photo is current.
\<close>

theorem auto_advance_uses_stale_length:
  "currentPhoto state3 = Some (mkPhoto ''B.jpg'' 5 (Some ''Red''))
   \<and> photos state3 = filterPhotos (filterRating state3) (filterColor state3) (allPhotos state3)
   \<and> distinct (map path (allPhotos state3))
   \<and> fst (handleKeyDown False ''1'' WriteOk (state3, []))
       = fst (updateMetadata (Some 1) None WriteOk (state3, []))
   \<and> photos (filterEffect (state3\<lparr>allPhotos := updateList ''/photos/B.jpg'' (Some 1) None catalog3\<rparr>))
       = [mkPhoto ''C.jpg'' 3 None]
   \<and> selectedIndex (filterEffect (state3\<lparr>allPhotos := updateList ''/photos/B.jpg'' (Some 1) None catalog3\<rparr>))
       = 0
   \<and> spec_next 0 (length [mkPhoto ''C.jpg'' 3 None]) = 0
   \<and> photos (fst (updateMetadata (Some 1) None WriteOk (state3, []))) = [mkPhoto ''C.jpg'' 3 None]
   \<and> selectedIndex (fst (updateMetadata (Some 1) None WriteOk (state3, []))) = 1
   \<and> currentPhoto (fst (updateMetadata (Some 1) None WriteOk (state3, []))) = None"
proof -
  let ?st1 = "state3\<lparr>allPhotos := updateList ''/photos/B.jpg'' (Some 1) None catalog3\<rparr>"
  have cur: "currentPhoto state3 = Some (mkPhoto ''B.jpg'' 5 (Some ''Red''))"
    by (simp add: currentPhoto_def js_index_def state3_def)
  have settled: "photos state3 = filterPhotos (filterRating state3) (filterColor state3) (allPhotos state3)"
    by (simp add: state3_def catalog3_visible)
  have dist: "distinct (map path (allPhotos state3))"
    by (simp add: state3_def catalog3_def mkPhoto_def)
  have key: "fst (handleKeyDown False ''1'' WriteOk (state3, []))
       = fst (updateMetadata (Some 1) None WriteOk (state3, []))"
    by (simp add: handleKeyDown_def keyMetadataArgs_def state3_def)
  have upd: "updateList ''/photos/B.jpg'' (Some 1) None catalog3
       = [mkPhoto ''A.jpg'' 0 None, mkPhoto ''B.jpg'' 1 (Some ''Red''), mkPhoto ''C.jpg'' 3 None]"
    by (simp add: updateList_def catalog3_def mkPhoto_def)
  have vis: "photos (filterEffect ?st1) = [mkPhoto ''C.jpg'' 3 None]"
    by (simp add: photos_filterEffect upd)
       (simp add: state3_def filterPhotos_def mkPhoto_def rating_or_0_def)
  have sel: "selectedIndex (filterEffect ?st1) = 0"
    by (simp add: selectedIndex_filterEffect vis) (simp add: state3_def clampIndex_def)
  have nxt: "spec_next 0 (length [mkPhoto ''C.jpg'' 3 None]) = 0"
    by (simp add: spec_next_def)
  have st: "fst (updateMetadata (Some 1) None WriteOk (state3, []))
            = autoAdvance (length (photos state3)) (filterEffect ?st1)"
    using updateMetadata_Some [OF cur, of "Some 1" None WriteOk "[]"]
    by (simp add: mkPhoto_def) (simp add: state3_def)
  have len: "length (photos state3) = 2"
    by (simp add: state3_def)
  have vis': "photos (fst (updateMetadata (Some 1) None WriteOk (state3, []))) = [mkPhoto ''C.jpg'' 3 None]"
    by (simp add: st autoAdvance_fields vis)
  have sel': "selectedIndex (fst (updateMetadata (Some 1) None WriteOk (state3, []))) = 1"
    by (simp add: st autoAdvance_fields sel len)
  have none: "currentPhoto (fst (updateMetadata (Some 1) None WriteOk (state3, []))) = None"
    by (simp add: currentPhoto_def js_index_def vis' sel')
  from cur settled dist key vis sel nxt vis' sel' none show ?thesis
    by (intro conjI) assumption+
qed



section \<open>A write that fails\<close>

lemma updateMetadata_state_any_outcome:
  "fst (updateMetadata r l outcome (st, log)) = fst (updateMetadata r l WriteOk (st, log))"
  by (cases "currentPhoto st") (simp_all add: updateMetadata_def Let_def)

lemma updateMetadata_log:
  "currentPhoto st = Some cp \<Longrightarrow>
   snd (updateMetadata r l outcome (st, log)) =
     (if outcome = WriteRejected then log @ [''Failed to save metadata''] else log)"
  by (cases outcome) (simp_all add: updateMetadata_def Let_def)

lemma updateList_Nil: "updateList k r l [] = []"
  by (simp add: updateList_def)

lemma updateList_rating_all:
  "list_all (\<lambda>p. path p = k \<longrightarrow> rating p = v) (updateList k (Some v) l C)"
  by (induction C) (simp_all add: updateList_Cons updateList_Nil)

lemma updateList_label_all:
  "list_all (\<lambda>p. path p = k \<longrightarrow> label p = w) (updateList k r (Some w) C)"
  by (induction C) (simp_all add: updateList_Cons updateList_Nil)

lemma updateList_rating_at_path:
  "p \<in> set (updateList k (Some v) l C) \<Longrightarrow> path p = k \<Longrightarrow> rating p = v"
  using updateList_rating_all [of k v l C] unfolding list_all_iff by blast

lemma updateList_label_at_path:
  "p \<in> set (updateList k r (Some w) C) \<Longrightarrow> path p = k \<Longrightarrow> label p = w"
  using updateList_label_all [of k w r C] unfolding list_all_iff by blast

lemma set_filterPhotos_subset: "set (filterPhotos fr fc C) \<subseteq> set C"
  by (auto simp: filterPhotos_as_filter)

text \<open>
  Claim C7. Whatever the end of the write request (a rejected \<^verbatim>\<open>fetch\<close> or a 500 of
  the server as well as a success), the state after \<^verbatim>\<open>updateMetadata\<close> is the state
  after a successful write: the catalog is the optimistically updated one, every record
  with the current photo's path in the catalog, in the visible set and in a further
  run of the filter has the rating and the label given, and a key pressed next is
  handled as after a success.
\<close>

theorem failed_write_keeps_optimistic_value:
  assumes "currentPhoto st = Some cp"
  shows "fst (updateMetadata r l WriteRejected (st, log)) = fst (updateMetadata r l WriteOk (st, log))
       \<and> fst (updateMetadata r l WriteHttp500 (st, log)) = fst (updateMetadata r l WriteOk (st, log))
       \<and> allPhotos (fst (updateMetadata r l outcome (st, log)))
           = updateList (path cp) r l (allPhotos st)
       \<and> photos (fst (updateMetadata r l outcome (st, log)))
           = filterPhotos (filterRating st) (filterColor st) (updateList (path cp) r l (allPhotos st))
       \<and> photos (filterEffect (fst (updateMetadata r l outcome (st, log))))
           = photos (fst (updateMetadata r l outcome (st, log)))
       \<and> (\<forall>p \<in> set (allPhotos (fst (updateMetadata (Some v) l outcome (st, log))))
                 \<union> set (photos (fst (updateMetadata (Some v) l outcome (st, log)))).
             path p = path cp \<longrightarrow> rating p = v)
       \<and> (\<forall>p \<in> set (allPhotos (fst (updateMetadata r (Some w) outcome (st, log))))
                 \<union> set (photos (fst (updateMetadata r (Some w) outcome (st, log)))).
             path p = path cp \<longrightarrow> label p = w)
       \<and> fst (handleKeyDown b key outcome' (fst (updateMetadata r l outcome (st, log)), log'))
           = fst (handleKeyDown b key outcome' (fst (updateMetadata r l WriteOk (st, log)), log'))"
proof -
  have a: "fst (updateMetadata r l oc (st, log)) = fst (updateMetadata r l WriteOk (st, log))" for oc
    by (rule updateMetadata_state_any_outcome)
  have all: "allPhotos (fst (updateMetadata r' l' oc (st, log)))
             = updateList (path cp) r' l' (allPhotos st)" for r' l' oc
    using assms by (simp add: updateMetadata_Some autoAdvance_fields filterEffect_frame)
  have vis: "photos (fst (updateMetadata r' l' oc (st, log)))
             = filterPhotos (filterRating st) (filterColor st)
                 (updateList (path cp) r' l' (allPhotos st))" for r' l' oc
    using assms by (simp add: updateMetadata_Some autoAdvance_fields photos_filterEffect)
  have again: "photos (filterEffect (fst (updateMetadata r l outcome (st, log))))
               = photos (fst (updateMetadata r l outcome (st, log)))"
    using assms
    by (simp add: updateMetadata_Some autoAdvance_fields photos_filterEffect filterEffect_frame)
  have rat: "\<forall>p \<in> set (allPhotos (fst (updateMetadata (Some v) l outcome (st, log))))
                 \<union> set (photos (fst (updateMetadata (Some v) l outcome (st, log)))).
             path p = path cp \<longrightarrow> rating p = v"
    unfolding all vis using set_filterPhotos_subset updateList_rating_at_path by blast
  have lab: "\<forall>p \<in> set (allPhotos (fst (updateMetadata r (Some w) outcome (st, log))))
                 \<union> set (photos (fst (updateMetadata r (Some w) outcome (st, log)))).
             path p = path cp \<longrightarrow> label p = w"
    unfolding all vis using set_filterPhotos_subset updateList_label_at_path by blast
  have key: "fst (handleKeyDown b key outcome' (fst (updateMetadata r l outcome (st, log)), log'))
           = fst (handleKeyDown b key outcome' (fst (updateMetadata r l WriteOk (st, log)), log'))"
    by (simp only: a [of outcome])
  from a [of WriteRejected] a [of WriteHttp500] all [of r l outcome] vis [of r l outcome]
       again rat lab key
  show ?thesis by blast
qed

theorem failed_write_keeps_optimistic_value_witness:
  "currentPhoto state3 = Some (mkPhoto ''B.jpg'' 5 (Some ''Red''))
   \<and> allPhotos (fst (updateMetadata (Some 4) None WriteRejected (state3, [])))
       = [mkPhoto ''A.jpg'' 0 None, mkPhoto ''B.jpg'' 4 (Some ''Red''), mkPhoto ''C.jpg'' 3 None]
   \<and> photos (fst (updateMetadata (Some 4) None WriteRejected (state3, [])))
       = [mkPhoto ''B.jpg'' 4 (Some ''Red''), mkPhoto ''C.jpg'' 3 None]
   \<and> snd (updateMetadata (Some 4) None WriteRejected (state3, [])) = [''Failed to save metadata'']"
proof -
  have c: "currentPhoto state3 = Some (mkPhoto ''B.jpg'' 5 (Some ''Red''))"
    by (simp add: currentPhoto_def js_index_def state3_def)
  note t = failed_write_keeps_optimistic_value [OF c, of "Some 4" None "[]" WriteRejected]
  have u: "updateList ''/photos/B.jpg'' (Some 4) None catalog3
     = [mkPhoto ''A.jpg'' 0 None, mkPhoto ''B.jpg'' 4 (Some ''Red''), mkPhoto ''C.jpg'' 3 None]"
    by (simp add: updateList_def catalog3_def mkPhoto_def)
  have pc: "path (mkPhoto ''B.jpg'' 5 (Some ''Red'')) = ''/photos/B.jpg''"
    by (simp add: mkPhoto_def)
  have sf: "allPhotos state3 = catalog3" "filterRating state3 = 3" "filterColor state3 = ''All''"
    by (simp_all add: state3_def)
  from t have "allPhotos (fst (updateMetadata (Some 4) None WriteRejected (state3, [])))
       = updateList (path (mkPhoto ''B.jpg'' 5 (Some ''Red''))) (Some 4) None (allPhotos state3)"
    by blast
  then have a: "allPhotos (fst (updateMetadata (Some 4) None WriteRejected (state3, [])))
       = updateList ''/photos/B.jpg'' (Some 4) None catalog3"
    by (simp only: pc sf)
  from t have "photos (fst (updateMetadata (Some 4) None WriteRejected (state3, [])))
       = filterPhotos (filterRating state3) (filterColor state3)
           (updateList (path (mkPhoto ''B.jpg'' 5 (Some ''Red''))) (Some 4) None (allPhotos state3))"
    by blast
  then have v: "photos (fst (updateMetadata (Some 4) None WriteRejected (state3, [])))
       = filterPhotos 3 ''All'' (updateList ''/photos/B.jpg'' (Some 4) None catalog3)"
    by (simp only: pc sf)
  have f: "filterPhotos 3 ''All''
             [mkPhoto ''A.jpg'' 0 None, mkPhoto ''B.jpg'' 4 (Some ''Red''), mkPhoto ''C.jpg'' 3 None]
           = [mkPhoto ''B.jpg'' 4 (Some ''Red''), mkPhoto ''C.jpg'' 3 None]"
    by (simp add: filterPhotos_def mkPhoto_def rating_or_0_def)
  have g: "snd (updateMetadata (Some 4) None WriteRejected (state3, [])) = [''Failed to save metadata'']"
    using updateMetadata_log [OF c, of "Some 4" None WriteRejected "[]"] by simp
  from c a v g show ?thesis by (simp add: u f)
qed


section \<open>The scan\<close>

lemma length_insert_cmp: "length (insert_cmp cmp x ys) = Suc (length ys)"
  by (induction ys) simp_all

lemma mset_insert_cmp: "mset (insert_cmp cmp x ys) = add_mset x (mset ys)"
  by (induction ys) simp_all

lemma set_insert_cmp: "set (insert_cmp cmp x ys) = insert x (set ys)"
  by (induction ys) auto

lemma length_js_sort: "length (js_sort cmp xs) = length xs"
  by (induction xs) (simp_all add: js_sort_def length_insert_cmp)

lemma mset_js_sort: "mset (js_sort cmp xs) = mset xs"
  by (induction xs) (simp_all add: js_sort_def mset_insert_cmp)

lemma sorted_insert_cmp:
  assumes tot: "\<And>a b. cmp a b \<le> 0 \<or> cmp b a \<le> 0"
    and trans: "\<And>a b c. cmp a b \<le> 0 \<Longrightarrow> cmp b c \<le> 0 \<Longrightarrow> cmp a c \<le> 0"
  shows "sorted_wrt (\<lambda>a b. cmp a b \<le> 0) ys \<Longrightarrow>
         sorted_wrt (\<lambda>a b. cmp a b \<le> 0) (insert_cmp cmp x ys)"
proof (induction ys)
  case Nil
  then show ?case by simp
next
  case (Cons y ys)
  from Cons.prems have above: "\<forall>z \<in> set ys. cmp y z \<le> 0"
    and rest: "sorted_wrt (\<lambda>a b. cmp a b \<le> 0) ys"
    by simp_all
  show ?case
  proof (cases "cmp x y \<le> 0")
    case True
    have "\<forall>z \<in> set ys. cmp x z \<le> 0"
    proof
      fix z assume "z \<in> set ys"
      with above have "cmp y z \<le> 0" by blast
      with True show "cmp x z \<le> 0" by (rule trans)
    qed
    with True above rest show ?thesis by simp
  next
    case False
    with tot [of x y] have yx: "cmp y x \<le> 0" by blast
    from rest have "sorted_wrt (\<lambda>a b. cmp a b \<le> 0) (insert_cmp cmp x ys)"
      by (rule Cons.IH)
    with False yx above show ?thesis by (simp add: set_insert_cmp)
  qed
qed

lemma sorted_js_sort:
  assumes tot: "\<And>a b. cmp a b \<le> 0 \<or> cmp b a \<le> 0"
    and trans: "\<And>a b c. cmp a b \<le> 0 \<Longrightarrow> cmp b c \<le> 0 \<Longrightarrow> cmp a c \<le> 0"
  shows "sorted_wrt (\<lambda>a b. cmp a b \<le> 0) (js_sort cmp xs)"
proof (induction xs)
  case Nil
  then show ?case by (simp add: js_sort_def)
next
  case (Cons x xs)
  have "sorted_wrt (\<lambda>a b. cmp a b \<le> 0) (insert_cmp cmp x (js_sort cmp xs))"
    by (rule sorted_insert_cmp [OF tot trans Cons.IH])
  then show ?case by (simp add: js_sort_def)
qed

lemma sorted_photos_by_name:
  fixes ps :: "photo list"
  assumes "consistent_compare lc"
  shows "sorted_wrt (\<lambda>a b. lc (name a) (name b) \<le> 0)
           (js_sort (\<lambda>a b. lc (name a) (name b)) ps)"
proof -
  have tot: "lc (name a) (name b) \<le> 0 \<or> lc (name b) (name a) \<le> 0" for a b :: photo
    using assms unfolding consistent_compare_def by blast
  have trans: "lc (name a) (name b) \<le> 0 \<Longrightarrow> lc (name b) (name c) \<le> 0 \<Longrightarrow>
               lc (name a) (name c) \<le> 0" for a b c :: photo
    using assms unfolding consistent_compare_def by blast
  show ?thesis
    by (rule sorted_js_sort [of "\<lambda>a b. lc (name a) (name b)" ps, OF tot trans])
qed

lemma ext_values_args:
  "ext_values (exiftool_args recursive folderPath)
     = [''jpg'', ''jpeg'', ''png'', ''JPG'', ''JPEG'', ''PNG'']"
  by (simp add: exiftool_args_def)

lemma getPhotos_exec_error:
  "exiftool_binary env = Some exe \<Longrightarrow>
   execFile env exe (exiftool_args (qr = Some ''true'') (getSafePath env qp)) = ExecError err \<Longrightarrow>
   getPhotos env qp qr = (PhotosJson (getSafePath env qp) [], [''Exiftool error:''])"
  by (simp add: getPhotos_def Let_def)

lemma getPhotos_parse_error:
  "exiftool_binary env = Some exe \<Longrightarrow>
   execFile env exe (exiftool_args (qr = Some ''true'') (getSafePath env qp)) = ExecOk out \<Longrightarrow>
   json_parse env out = None \<Longrightarrow>
   getPhotos env qp qr = (PhotosJson (getSafePath env qp) [], [''JSON Parse error:''])"
  by (simp add: getPhotos_def Let_def)

lemma getPhotos_binary_missing:
  "exiftool_binary env = None \<Longrightarrow>
   getPhotos env qp qr =
     (PhotosError500 ''Exiftool binary not found'',
      [''Could not find exiftool binary path:'', ''Error scanning folder:''])"
  by (simp add: getPhotos_def Let_def)

lemma getPhotos_listing:
  "tool_listing env (qr = Some ''true'') (getSafePath env qp) = Some items \<Longrightarrow>
   getPhotos env qp qr =
     (PhotosJson (getSafePath env qp)
        (js_sort (\<lambda>a b. localeCompare env (name a) (name b)) (map toPhoto items)), [])"
  by (auto simp: getPhotos_def tool_listing_def Let_def split: option.splits exec_result.splits)

lemma getPhotos_no_listing:
  "tool_listing env (qr = Some ''true'') (getSafePath env qp) = None \<Longrightarrow>
   data_photos (fst (getPhotos env qp qr)) = [] \<and> snd (getPhotos env qp qr) \<noteq> []"
  by (auto simp: getPhotos_def tool_listing_def data_photos_def Let_def
      split: option.splits exec_result.splits)

lemma scan_unreachable:
  "scan env False p isRec st = (st\<lparr>allPhotos := []\<rparr>, [''Failed to load photos''])"
  by (simp add: scan_def fetchPhotos_def)

lemma scan_reachable:
  "scan env True p isRec st =
     (st\<lparr>allPhotos := data_photos (fst (getPhotos env (Some p) (Some (if isRec then ''true'' else ''false''))))\<rparr>,
      snd (getPhotos env (Some p) (Some (if isRec then ''true'' else ''false''))))"
  by (simp add: scan_def fetchPhotos_def split: prod.splits)

lemma recursive_flag: "(Some (if isRec then ''true'' else ''false'') = Some ''true'') = isRec"
  by simp


lemma listed_photos_props:
  "length (listed_photos env items) = length items"
  "mset (listed_photos env items) = mset (map toPhoto items)"
  by (simp_all add: listed_photos_def length_js_sort mset_js_sort)

lemma listed_photos_sorted:
  "consistent_compare (localeCompare env) \<Longrightarrow>
   sorted_wrt (\<lambda>a b. localeCompare env (name a) (name b) \<le> 0) (listed_photos env items)"
  unfolding listed_photos_def by (rule sorted_photos_by_name)

lemma scan_failure:
  "\<not> reachable \<or> tool_listing env isRec (getSafePath env (Some p)) = None \<Longrightarrow>
   allPhotos (fst (scan env reachable p isRec st)) = [] \<and> snd (scan env reachable p isRec st) \<noteq> []"
proof (cases reachable)
  case False
  then show ?thesis by (simp add: scan_unreachable)
next
  case True
  assume "\<not> reachable \<or> tool_listing env isRec (getSafePath env (Some p)) = None"
  with True have "tool_listing env
      (Some (if isRec then ''true'' else ''false'') = Some ''true'') (getSafePath env (Some p)) = None"
    by (simp only: recursive_flag) simp
  from getPhotos_no_listing [OF this] True show ?thesis
    by (simp add: scan_reachable)
qed

lemma scan_success:
  "reachable \<Longrightarrow> tool_listing env isRec (getSafePath env (Some p)) = Some items \<Longrightarrow>
   scan env reachable p isRec st = (st\<lparr>allPhotos := listed_photos env items\<rparr>, [])"
proof -
  assume r: reachable and "tool_listing env isRec (getSafePath env (Some p)) = Some items"
  then have "tool_listing env
      (Some (if isRec then ''true'' else ''false'') = Some ''true'') (getSafePath env (Some p)) = Some items"
    by (simp only: recursive_flag)
  from getPhotos_listing [OF this] r show ?thesis
    by (simp add: scan_reachable data_photos_def listed_photos_def)
qed

text \<open>
  Claim C6. When the tool's binary is found and the tool reports an error, or its output
  does not parse, the handler answers with an empty photo list and writes an error line;
  when the gateway gives a listing, the answer holds one record per item, the same
  records sorted by name in ascending order, and the extensions asked of the tool are
  jpg, jpeg and png in lower and upper case. Seen from the frontend, a scan that fails
  anywhere (the server is not reached, or the gateway gives no listing) leaves an empty
  catalog and an error line; a scan that succeeds leaves the sorted records.
\<close>

theorem scan_degrades_to_empty_catalog:
  assumes "consistent_compare (localeCompare env)"
  shows "(exiftool_binary env = Some exe
          \<and> execFile env exe (exiftool_args (qr = Some ''true'') (getSafePath env qp)) = ExecError err
          \<longrightarrow> getPhotos env qp qr = (PhotosJson (getSafePath env qp) [], [''Exiftool error:'']))
       \<and> (exiftool_binary env = Some exe
          \<and> execFile env exe (exiftool_args (qr = Some ''true'') (getSafePath env qp)) = ExecOk out
          \<and> json_parse env out = None
          \<longrightarrow> getPhotos env qp qr = (PhotosJson (getSafePath env qp) [], [''JSON Parse error:'']))
       \<and> (tool_listing env (qr = Some ''true'') (getSafePath env qp) = Some items
          \<longrightarrow> getPhotos env qp qr = (PhotosJson (getSafePath env qp) (listed_photos env items), []))
       \<and> length (listed_photos env items) = length items
       \<and> mset (listed_photos env items) = mset (map toPhoto items)
       \<and> sorted_wrt (\<lambda>a b. localeCompare env (name a) (name b) \<le> 0) (listed_photos env items)
       \<and> ext_values (exiftool_args recursive folderPath)
           = [''jpg'', ''jpeg'', ''png'', ''JPG'', ''JPEG'', ''PNG'']
       \<and> (\<not> reachable \<or> tool_listing env isRec (getSafePath env (Some p)) = None
          \<longrightarrow> allPhotos (fst (scan env reachable p isRec st)) = []
              \<and> snd (scan env reachable p isRec st) \<noteq> [])
       \<and> (reachable \<and> tool_listing env isRec (getSafePath env (Some p)) = Some items
          \<longrightarrow> scan env reachable p isRec st = (st\<lparr>allPhotos := listed_photos env items\<rparr>, []))"
proof -
  have a: "exiftool_binary env = Some exe
          \<and> execFile env exe (exiftool_args (qr = Some ''true'') (getSafePath env qp)) = ExecError err
          \<longrightarrow> getPhotos env qp qr = (PhotosJson (getSafePath env qp) [], [''Exiftool error:''])"
    using getPhotos_exec_error by blast
  have b: "exiftool_binary env = Some exe
          \<and> execFile env exe (exiftool_args (qr = Some ''true'') (getSafePath env qp)) = ExecOk out
          \<and> json_parse env out = None
          \<longrightarrow> getPhotos env qp qr = (PhotosJson (getSafePath env qp) [], [''JSON Parse error:''])"
    using getPhotos_parse_error by blast
  have c: "tool_listing env (qr = Some ''true'') (getSafePath env qp) = Some items
          \<longrightarrow> getPhotos env qp qr = (PhotosJson (getSafePath env qp) (listed_photos env items), [])"
    using getPhotos_listing [of env qr qp items] by (simp add: listed_photos_def)
  have d: "sorted_wrt (\<lambda>a b. localeCompare env (name a) (name b) \<le> 0) (listed_photos env items)"
    using assms by (rule listed_photos_sorted)
  have e: "\<not> reachable \<or> tool_listing env isRec (getSafePath env (Some p)) = None
          \<longrightarrow> allPhotos (fst (scan env reachable p isRec st)) = []
              \<and> snd (scan env reachable p isRec st) \<noteq> []"
    using scan_failure [of reachable env isRec p st] by blast
  have f: "reachable \<and> tool_listing env isRec (getSafePath env (Some p)) = Some items
          \<longrightarrow> scan env reachable p isRec st = (st\<lparr>allPhotos := listed_photos env items\<rparr>, [])"
    using scan_success [of reachable env isRec p items st] by blast
  from a b c d e f listed_photos_props [of env items] ext_values_args [of recursive folderPath]
  show ?thesis by (intro conjI) assumption+
qed

lemma first_char_cmp_consistent: "consistent_compare first_char_cmp"
  unfolding consistent_compare_def first_char_cmp_def by (intro conjI allI) linarith+

lemma env_ok_fields:
  "localeCompare env_ok = first_char_cmp"
  "exiftool_binary env_ok = Some ''exiftool.exe''"
  "DEFAULT_ROOT env_ok = ''/photos''"
  "getSafePath env_ok (Some ''/photos'') = ''/photos''"
  "getSafePath env_ok (Some ''/nowhere'') = ''/nowhere''"
  "getSafePath env_ok (Some ''/garbled'') = ''/garbled''"
  by (simp_all add: env_ok_def DEFAULT_ROOT_def getSafePath_def)

lemma env_ok_exec:
  "execFile env_ok exe (exiftool_args r ''/photos'') = ExecOk ''items''"
  "execFile env_ok exe (exiftool_args r ''/garbled'') = ExecOk ''garbled''"
  "execFile env_ok exe (exiftool_args r ''/nowhere'') = ExecError ''File not found''"
  "json_parse env_ok ''items'' = Some items3"
  "json_parse env_ok ''garbled'' = None"
  by (simp_all add: env_ok_def exiftool_args_def)

lemma env_ok_listing: "tool_listing env_ok r ''/photos'' = Some items3"
  by (simp add: tool_listing_def env_ok_fields env_ok_exec)

lemma env_no_tool_fields:
  "localeCompare env_no_tool = first_char_cmp"
  "exiftool_binary env_no_tool = None"
  "tool_listing env_no_tool r d = None"
  by (simp_all add: env_no_tool_def env_ok_def tool_listing_def)

lemma listed_items3: "listed_photos env_ok items3 = catalog3"
  by (simp add: listed_photos_def js_sort_def items3_def toPhoto_def catalog3_def mkPhoto_def
      env_ok_fields first_char_cmp_def first_char_key_def)

theorem scan_degrades_to_empty_catalog_witness:
  "consistent_compare (localeCompare env_ok)
   \<and> consistent_compare (localeCompare env_no_tool)
   \<and> getPhotos env_ok (Some ''/nowhere'') None = (PhotosJson ''/nowhere'' [], [''Exiftool error:''])
   \<and> getPhotos env_ok (Some ''/garbled'') None = (PhotosJson ''/garbled'' [], [''JSON Parse error:''])
   \<and> getPhotos env_ok (Some ''/photos'') (Some ''false'') = (PhotosJson ''/photos'' catalog3, [])
   \<and> allPhotos (fst (scan env_no_tool True ''/photos'' False (state5 0))) = []
   \<and> allPhotos (fst (scan env_ok False ''/photos'' False (state5 0))) = []
   \<and> allPhotos (fst (scan env_ok True ''/photos'' False (state5 0))) = catalog3"
proof -
  have c1: "consistent_compare (localeCompare env_ok)"
    by (simp add: env_ok_fields first_char_cmp_consistent)
  have c2: "consistent_compare (localeCompare env_no_tool)"
    by (simp add: env_no_tool_fields first_char_cmp_consistent)
  from scan_degrades_to_empty_catalog
         [OF c1, of "''exiftool.exe''" None "Some ''/nowhere''" "''File not found''"]
  have n: "getPhotos env_ok (Some ''/nowhere'') None = (PhotosJson ''/nowhere'' [], [''Exiftool error:''])"
    by (simp add: env_ok_fields env_ok_exec)
  from scan_degrades_to_empty_catalog
         [OF c1, of "''exiftool.exe''" None "Some ''/garbled''" _ "''garbled''"]
  have g: "getPhotos env_ok (Some ''/garbled'') None = (PhotosJson ''/garbled'' [], [''JSON Parse error:''])"
    by (simp add: env_ok_fields env_ok_exec)
  from scan_degrades_to_empty_catalog
         [OF c1, of _ "Some ''false''" "Some ''/photos''" _ _ items3 _ _ True False "''/photos''"  "state5 0"]
  have ok: "getPhotos env_ok (Some ''/photos'') (Some ''false'') = (PhotosJson ''/photos'' catalog3, [])"
    and sc: "allPhotos (fst (scan env_ok True ''/photos'' False (state5 0))) = catalog3"
    by (simp_all add: env_ok_fields env_ok_listing listed_items3)
  from scan_degrades_to_empty_catalog
         [OF c2, of _ _ _ _ _ _ _ _ True False "''/photos''" "state5 0"]
  have nt: "allPhotos (fst (scan env_no_tool True ''/photos'' False (state5 0))) = []"
    by (simp add: env_no_tool_fields)
  from scan_degrades_to_empty_catalog
         [OF c1, of _ _ _ _ _ _ _ _ False False "''/photos''" "state5 0"]
  have ur: "allPhotos (fst (scan env_ok False ''/photos'' False (state5 0))) = []"
    by simp
  from c1 c2 n g ok nt ur sc show ?thesis by (intro conjI) assumption+
qed


section \<open>A request without a path\<close>

lemma getSafePath_absent:
  "qp = None \<or> qp = Some [] \<Longrightarrow> getSafePath env qp = DEFAULT_ROOT env"
  by (auto simp: getSafePath_def)

lemma last_exiftool_args: "last (exiftool_args recursive folderPath) = folderPath"
  by (simp add: exiftool_args_def)

lemma getPhotos_depends_on_folder:
  "getSafePath env qp = getSafePath env qp' \<Longrightarrow> getPhotos env qp qr = getPhotos env qp' qr"
  by (simp add: getPhotos_def)

text \<open>
  Claim C10, in the form the code satisfies. A request whose path is absent or empty is scanned over
  \<^verbatim>\<open>DEFAULT_ROOT\<close>, which is \<^verbatim>\<open>path.resolve(__dirname, '../..')\<close>: the tool is
  run on that directory, and when the gateway gives a listing for it the answer is that
  directory's photo list. The answer is the one a request naming a path that resolves
  to \<^verbatim>\<open>DEFAULT_ROOT\<close> gets; with the tool's binary missing it is the status 500.
\<close>

theorem absent_path_scans_default_root:
  assumes "qp = None \<or> qp = Some []"
  shows "getSafePath env qp = DEFAULT_ROOT env
       \<and> DEFAULT_ROOT env = path_resolve env [dirname env, ''../..'']
       \<and> last (exiftool_args recursive (getSafePath env qp)) = DEFAULT_ROOT env
       \<and> (tool_listing env (qr = Some ''true'') (DEFAULT_ROOT env) = Some items \<longrightarrow>
            getPhotos env qp qr = (PhotosJson (DEFAULT_ROOT env) (listed_photos env items), []))
       \<and> (getSafePath env (Some named) = DEFAULT_ROOT env \<longrightarrow>
            getPhotos env qp qr = getPhotos env (Some named) qr)
       \<and> (exiftool_binary env = None \<longrightarrow>
            fst (getPhotos env qp qr) = PhotosError500 ''Exiftool binary not found'')"
proof -
  from assms have root: "getSafePath env qp = DEFAULT_ROOT env"
    by (rule getSafePath_absent)
  have a: "tool_listing env (qr = Some ''true'') (DEFAULT_ROOT env) = Some items \<longrightarrow>
            getPhotos env qp qr = (PhotosJson (DEFAULT_ROOT env) (listed_photos env items), [])"
    using getPhotos_listing [of env qr qp items] root by (simp add: listed_photos_def)
  have b: "getSafePath env (Some named) = DEFAULT_ROOT env \<longrightarrow>
            getPhotos env qp qr = getPhotos env (Some named) qr"
    using getPhotos_depends_on_folder [of env qp "Some named" qr] root by simp
  have c: "exiftool_binary env = None \<longrightarrow>
            fst (getPhotos env qp qr) = PhotosError500 ''Exiftool binary not found''"
    by (simp add: getPhotos_binary_missing)
  from root a b c show ?thesis
    by (simp add: DEFAULT_ROOT_def last_exiftool_args)
qed

theorem absent_path_scans_default_root_witness:
  "getSafePath env_ok None = ''/photos''
   \<and> getSafePath env_ok (Some []) = ''/photos''
   \<and> getPhotos env_ok None None = (PhotosJson ''/photos'' catalog3, [])
   \<and> getPhotos env_ok (Some []) (Some ''false'') = (PhotosJson ''/photos'' catalog3, [])"
proof -
  have d: "(None :: string option) = None \<or> (None :: string option) = Some []" by simp
  have e: "Some [] = (None :: string option) \<or> Some [] = Some ([] :: string)" by simp
  from absent_path_scans_default_root [OF d, of env_ok _ None items3]
  have a: "getSafePath env_ok None = ''/photos''"
    and b: "getPhotos env_ok None None = (PhotosJson ''/photos'' catalog3, [])"
    by (simp_all add: env_ok_fields env_ok_listing listed_items3)
  from absent_path_scans_default_root [OF e, of env_ok _ "Some ''false''" items3]
  have a': "getSafePath env_ok (Some []) = ''/photos''"
    and b': "getPhotos env_ok (Some []) (Some ''false'') = (PhotosJson ''/photos'' catalog3, [])"
    by (simp_all add: env_ok_fields env_ok_listing listed_items3)
  from a a' b b' show ?thesis by (intro conjI) assumption+
qed

text \<open>
  Without the tool's binary a request without a path is answered with the status 500: the
  scan fails and returns an error.
\<close>

theorem absent_path_scan_can_fail:
  "fst (getPhotos env_no_tool None None) = PhotosError500 ''Exiftool binary not found''
   \<and> (\<forall>ps. fst (getPhotos env_no_tool None None) \<noteq> PhotosJson (DEFAULT_ROOT env_no_tool) ps)"
  by (simp add: getPhotos_binary_missing env_no_tool_fields)


section \<open>Copying a batch\<close>

lemma copyLoop_result:
  "copyLoop env dest files n copied =
     (if \<forall>f \<in> set files. copy_succeeds env dest f then Some (n + length files) else None,
      copied @ map (copy_target env dest) (takeWhile (copy_succeeds env dest) files))"
proof (induction files arbitrary: n copied)
  case Nil
  then show ?case by simp
next
  case (Cons f fs)
  show ?case
  proof (cases "copy_succeeds env dest f")
    case True
    then have "copyLoop env dest (f # fs) n copied
               = copyLoop env dest fs (n + 1) (copied @ [copy_target env dest f])"
      by (simp add: copy_succeeds_def copy_target_def Let_def)
    with True show ?thesis by (simp add: Cons.IH)
  next
    case False
    then have "copyLoop env dest (f # fs) n copied = (None, copied)"
      by (simp add: copy_succeeds_def Let_def)
    with False show ?thesis by simp
  qed
qed

lemma copyFiles_loop:
  "dest \<noteq> [] \<Longrightarrow> existsSync env dest \<or> mkdir env dest \<Longrightarrow>
   copyFiles env (Some files) (Some dest) =
     (case copyLoop env dest files 0 [] of
        (Some n, copied) \<Rightarrow> (CopySuccess n, copied)
      | (None, copied) \<Rightarrow> (CopyError500, copied))"
  by (auto simp: copyFiles_def)

text \<open>
  Claim C8, in the form the code satisfies. For a batch with a destination that exists or can be made: when
  every copy succeeds, the answer is the count of the files and all of them are copied;
  when a copy fails, the handler answers with the status 500 and no count, and the files
  copied are those before the first one that fails.
\<close>

theorem copy_batch_stops_at_first_failure:
  assumes "dest \<noteq> []" and "existsSync env dest \<or> mkdir env dest"
  shows "((\<forall>f \<in> set files. copy_succeeds env dest f) \<longrightarrow>
            copyFiles env (Some files) (Some dest)
              = (CopySuccess (length files), map (copy_target env dest) files))
       \<and> ((\<exists>f \<in> set files. \<not> copy_succeeds env dest f) \<longrightarrow>
            copyFiles env (Some files) (Some dest)
              = (CopyError500,
                 map (copy_target env dest) (takeWhile (copy_succeeds env dest) files)))"
proof -
  have all: "(\<forall>f \<in> set files. copy_succeeds env dest f) \<Longrightarrow>
             takeWhile (copy_succeeds env dest) files = files"
    by simp
  from assms show ?thesis
    by (auto simp: copyFiles_loop copyLoop_result all)
qed

lemma copy_env_missing3_facts:
  "existsSync copy_env_missing3 d"
  "copy_succeeds copy_env_missing3 d f = (f \<noteq> ''/src/3.jpg'')"
  "copy_target copy_env_missing3 d f = (f, d @ ''/'' @ drop 5 f)"
  by (simp_all add: copy_env_missing3_def copy_succeeds_def copy_target_def)

lemma copy_env_all_present_facts:
  "existsSync copy_env_all_present d"
  "copy_succeeds copy_env_all_present d f"
  "copy_target copy_env_all_present d f = (f, d @ ''/'' @ drop 5 f)"
  by (simp_all add: copy_env_all_present_def copy_env_missing3_def copy_succeeds_def
      copy_target_def)

theorem copy_batch_stops_at_first_failure_witness:
  "copyFiles copy_env_all_present (Some batch5) (Some ''/dst'')
     = (CopySuccess 5,
        [(''/src/1.jpg'', ''/dst/1.jpg''), (''/src/2.jpg'', ''/dst/2.jpg''),
         (''/src/3.jpg'', ''/dst/3.jpg''), (''/src/4.jpg'', ''/dst/4.jpg''),
         (''/src/5.jpg'', ''/dst/5.jpg'')])
   \<and> copyFiles copy_env_missing3 (Some [''/src/4.jpg'', ''/src/3.jpg'', ''/src/5.jpg'']) (Some ''/dst'')
     = (CopyError500, [(''/src/4.jpg'', ''/dst/4.jpg'')])"
proof -
  have ne: "''/dst'' \<noteq> []" by simp
  have e1: "existsSync copy_env_all_present ''/dst'' \<or> mkdir copy_env_all_present ''/dst''"
    by (simp add: copy_env_all_present_facts)
  have e2: "existsSync copy_env_missing3 ''/dst'' \<or> mkdir copy_env_missing3 ''/dst''"
    by (simp add: copy_env_missing3_facts)
  from copy_batch_stops_at_first_failure [OF ne e1, of batch5]
  have a: "copyFiles copy_env_all_present (Some batch5) (Some ''/dst'')
     = (CopySuccess 5,
        [(''/src/1.jpg'', ''/dst/1.jpg''), (''/src/2.jpg'', ''/dst/2.jpg''),
         (''/src/3.jpg'', ''/dst/3.jpg''), (''/src/4.jpg'', ''/dst/4.jpg''),
         (''/src/5.jpg'', ''/dst/5.jpg'')])"
    by (simp add: copy_env_all_present_facts batch5_def)
  from copy_batch_stops_at_first_failure
         [OF ne e2, of "[''/src/4.jpg'', ''/src/3.jpg'', ''/src/5.jpg'']"]
  have b: "copyFiles copy_env_missing3 (Some [''/src/4.jpg'', ''/src/3.jpg'', ''/src/5.jpg'']) (Some ''/dst'')
     = (CopyError500, [(''/src/4.jpg'', ''/dst/4.jpg'')])"
    by (simp add: copy_env_missing3_facts)
  from a b show ?thesis by (intro conjI) assumption+
qed

text \<open>
  A batch of five files whose third file is missing: the handler answers with the status
  500, not with the count 4, and the fourth and fifth file are not copied.
\<close>

theorem copy_batch_of_five_third_missing:
  "copyFiles copy_env_missing3 (Some batch5) (Some ''/dst'')
     = (CopyError500, [(''/src/1.jpg'', ''/dst/1.jpg''), (''/src/2.jpg'', ''/dst/2.jpg'')])
   \<and> fst (copyFiles copy_env_missing3 (Some batch5) (Some ''/dst'')) \<noteq> CopySuccess 4"
  by (simp add: copyFiles_def batch5_def copy_env_missing3_def)


section \<open>The range of the rating\<close>

lemma keyMetadataArgs_rating_range:
  "keyMetadataArgs key = Some (Some r, l) \<Longrightarrow> 0 \<le> r \<and> r \<le> 5"
  by (simp add: keyMetadataArgs_def split: if_splits)

lemma updateList_ratings_in_range:
  assumes "ratings_in_range C" and "\<And>v. r = Some v \<Longrightarrow> 0 \<le> v \<and> v \<le> 5"
  shows "ratings_in_range (updateList k r l C)"
  using assms(1)
proof (induction C)
  case Nil
  then show ?case by (simp add: updateList_Nil)
next
  case (Cons x xs)
  then have x: "0 \<le> rating x \<and> rating x \<le> 5" and xs: "ratings_in_range (updateList k r l xs)"
    by (simp_all add: ratings_in_range_def)
  show ?case
  proof (cases r)
    case None
    with x xs show ?thesis by (simp add: updateList_Cons ratings_in_range_def)
  next
    case (Some v)
    with assms(2) have "0 \<le> v \<and> v \<le> 5" by blast
    with Some x xs show ?thesis by (simp add: updateList_Cons ratings_in_range_def)
  qed
qed

lemma updateMetadata_allPhotos:
  "allPhotos (fst (updateMetadata r l outcome (st, log))) =
     (case currentPhoto st of
        None \<Rightarrow> allPhotos st
      | Some cp \<Rightarrow> updateList (path cp) r l (allPhotos st))"
  by (cases "currentPhoto st")
     (simp_all add: updateMetadata_None updateMetadata_Some autoAdvance_fields filterEffect_frame)

lemma updateMetadata_keeps_range:
  assumes "ratings_in_range (allPhotos st)" and "\<And>v. r = Some v \<Longrightarrow> 0 \<le> v \<and> v \<le> 5"
  shows "ratings_in_range (allPhotos (fst (updateMetadata r l outcome (st, log))))"
proof (cases "currentPhoto st")
  case None
  with assms(1) show ?thesis by (simp add: updateMetadata_allPhotos)
next
  case (Some cp)
  from assms have "ratings_in_range (updateList (path cp) r l (allPhotos st))"
    by (rule updateList_ratings_in_range)
  with Some show ?thesis by (simp add: updateMetadata_allPhotos)
qed

lemma handleKeyDown_keeps_range:
  assumes "ratings_in_range (allPhotos st)"
  shows "ratings_in_range (allPhotos (fst (handleKeyDown b key outcome (st, log))))"
proof (cases "keyMetadataArgs key")
  case None
  with assms show ?thesis by (simp add: handleKeyDown_def)
next
  case (Some args)
  obtain r l where args: "args = (r, l)" by (cases args)
  have "0 \<le> v \<and> v \<le> 5" if "r = Some v" for v
    using keyMetadataArgs_rating_range [of key v l] Some args that by simp
  with assms have "ratings_in_range (allPhotos (fst (updateMetadata r l outcome (st, log))))"
    by (rule updateMetadata_keeps_range)
  with assms Some args show ?thesis by (simp add: handleKeyDown_def)
qed

lemma stored_rating_ratingTags:
  "stored_rating (Some (file, ratingTags (Some v) @ rest)) = Some v"
  by (simp add: stored_rating_def ratingTags_def)

lemma postMetadata_stores_rating:
  assumes "fst (postMetadata env req) = MetaSuccess" and "req_rating req = Some v"
  shows "stored_rating (snd (postMetadata env req)) = Some v"
proof -
  from assms(1) obtain fl rest where
    "snd (postMetadata env req) = Some (fl, ratingTags (req_rating req) @ rest)"
    by (auto simp: postMetadata_def Let_def split: option.splits if_splits)
  with assms(2) show ?thesis by (simp add: stored_rating_ratingTags)
qed

lemma postMetadata_rating_only:
  "req_file req = Some f \<Longrightarrow> f \<noteq> [] \<Longrightarrow> req_label req = None \<Longrightarrow>
   exiftool_write env f (ratingTags (req_rating req)) \<Longrightarrow>
   postMetadata env req = (MetaSuccess, Some (f, ratingTags (req_rating req)))"
  by (simp add: postMetadata_def Let_def)

lemma key_request_rating_range:
  assumes "keyMetadataArgs key = Some (kr, kl)"
    and "updateMetadataRequest kr kl st = Some posted"
    and "req_rating posted = Some pv"
  shows "0 \<le> pv \<and> pv \<le> 5"
proof -
  from assms(2,3) have "kr = Some pv"
    by (auto simp: updateMetadataRequest_def split: option.splits)
  with assms(1) show ?thesis by (simp add: keyMetadataArgs_rating_range)
qed

text \<open>
  Claim C9, in the form the code satisfies. The ratings that the keys of the frontend give to
  \<^verbatim>\<open>updateMetadata\<close> are 0 to 5, so the ratings of the catalog stay in that range
  under the keyboard and so are the ratings of the requests it posts. The server's
  handler does not check the rating: whenever it
  answers with success, the rating written is the rating of the request as it is, and a
  request with a file, a rating and no label succeeds whenever the tool's write does.
\<close>

theorem rating_range_kept_by_keys_only:
  "(keyMetadataArgs key = Some (Some r, l) \<longrightarrow> 0 \<le> r \<and> r \<le> 5)
   \<and> (ratings_in_range (allPhotos st) \<longrightarrow>
        ratings_in_range (allPhotos (fst (handleKeyDown b key outcome (st, log)))))
   \<and> (fst (postMetadata env req) = MetaSuccess \<and> req_rating req = Some v \<longrightarrow>
        stored_rating (snd (postMetadata env req)) = Some v)
   \<and> (req_file req = Some f \<and> f \<noteq> [] \<and> req_label req = None
        \<and> exiftool_write env f (ratingTags (req_rating req)) \<longrightarrow>
        postMetadata env req = (MetaSuccess, Some (f, ratingTags (req_rating req))))
   \<and> (keyMetadataArgs key = Some (kr, kl) \<and> updateMetadataRequest kr kl st = Some posted
        \<and> req_rating posted = Some pv \<longrightarrow> 0 \<le> pv \<and> pv \<le> 5)"
  using keyMetadataArgs_rating_range [of key r l]
        handleKeyDown_keeps_range [of st b key outcome log]
        postMetadata_stores_rating [of env req v]
        postMetadata_rating_only [of req f env]
        key_request_rating_range [of key kr kl st posted pv]
  by blast

theorem rating_range_kept_by_keys_only_witness:
  "keyMetadataArgs ''5'' = Some (Some 5, None)
   \<and> ratings_in_range (allPhotos state3)
   \<and> ratings_in_range (allPhotos (fst (handleKeyDown False ''5'' WriteOk (state3, []))))
   \<and> stored_rating (snd (postMetadata meta_env_ok
        \<lparr>req_file = Some ''/photos/B.jpg'', req_rating = Some 5, req_label = None\<rparr>)) = Some 5"
proof -
  let ?req = "\<lparr>req_file = Some ''/photos/B.jpg'', req_rating = Some 5, req_label = None\<rparr>"
  have k: "keyMetadataArgs ''5'' = Some (Some 5, None)"
    by (simp add: keyMetadataArgs_def)
  have i: "ratings_in_range (allPhotos state3)"
    by (simp add: ratings_in_range_def state3_def catalog3_def mkPhoto_def)
  have w: "exiftool_write meta_env_ok ''/photos/B.jpg'' (ratingTags (req_rating ?req))"
    by (simp add: meta_env_ok_def)
  note t = rating_range_kept_by_keys_only
             [of "''5''" 5 None state3 False WriteOk "[]" meta_env_ok ?req 5 "''/photos/B.jpg''"]
  from t i have a: "ratings_in_range (allPhotos (fst (handleKeyDown False ''5'' WriteOk (state3, []))))"
    by blast
  from t w have "postMetadata meta_env_ok ?req = (MetaSuccess, Some (''/photos/B.jpg'', ratingTags (req_rating ?req)))"
    by simp
  with t have b: "stored_rating (snd (postMetadata meta_env_ok ?req)) = Some 5"
    by simp
  from k i a b show ?thesis by (intro conjI) assumption+
qed

text \<open>
  A request with the rating 7 is answered with success, and the rating written is 7: it
  is neither rejected nor brought back to 5.
\<close>

theorem rating_seven_is_stored:
  "postMetadata meta_env_ok
     \<lparr>req_file = Some ''/photos/B.jpg'', req_rating = Some 7, req_label = None\<rparr>
     = (MetaSuccess,
        Some (''/photos/B.jpg'',
              [(''Rating'', TNum 7), (''XMP:Rating'', TNum 7), (''RatingPercent'', TNum 0)]))
   \<and> stored_rating (snd (postMetadata meta_env_ok
        \<lparr>req_file = Some ''/photos/B.jpg'', req_rating = Some 7, req_label = None\<rparr>)) = Some 7
   \<and> \<not> ((0::int) \<le> 7 \<and> (7::int) \<le> 5)"
  by (simp add: postMetadata_def meta_env_ok_def ratingTags_def ratingMap_def stored_rating_def)


section \<open>The selection is never negative\<close>

lemma clampIndex_nonneg: "0 \<le> i \<Longrightarrow> 0 \<le> clampIndex i n"
  by (simp add: clampIndex_def)

lemma filterEffect_index_nonneg:
  "0 \<le> selectedIndex st \<Longrightarrow> 0 \<le> selectedIndex (filterEffect st)"
  by (simp add: selectedIndex_filterEffect clampIndex_nonneg)

lemma updateMetadata_index_nonneg:
  assumes "0 \<le> selectedIndex st"
  shows "0 \<le> selectedIndex (fst (updateMetadata r l outcome (st, log)))"
proof (cases "currentPhoto st")
  case None
  with assms show ?thesis by (simp add: updateMetadata_None)
next
  case (Some cp)
  then have n: "0 < int (length (photos st))"
    using currentPhoto_SomeD [of st cp] by linarith
  let ?st1 = "st\<lparr>allPhotos := updateList (path cp) r l (allPhotos st)\<rparr>"
  from assms have "0 \<le> selectedIndex (filterEffect ?st1)"
    by (simp add: filterEffect_index_nonneg)
  with n Some show ?thesis by (simp add: updateMetadata_Some autoAdvance_fields)
qed

text \<open>The keys keep the selection from becoming negative (with a column count that is not negative).\<close>

lemma handleKeyDown_index_nonneg:
  assumes "0 \<le> selectedIndex st" and "0 \<le> columnsCount st"
  shows "0 \<le> selectedIndex (fst (handleKeyDown b key outcome (st, log)))"
proof (cases "b \<or> length (photos st) = 0")
  case True
  with assms show ?thesis by (auto simp: handleKeyDown_def)
next
  case False
  then have n: "0 < int (length (photos st))" by simp
  from assms(1) have u: "0 \<le> selectedIndex (fst (updateMetadata r l outcome (st, log)))" for r l
    by (rule updateMetadata_index_nonneg)
  from False assms n u show ?thesis
    by (auto simp: handleKeyDown_def split: option.splits)
qed


end
